theory Spec2Isabelle
  imports Main "HOL-Library.Word" "HOL-Library.Signed_Division" "HOL-Library.Monad_Syntax"
begin

unbundle bit_operations_syntax

section \<open>The I2C bus as seen by the touch driver\<close>

text \<open>
  The driver in \<^verbatim>\<open>gt911.c\<close> talks to the controller through the Pico SDK calls
  \<^verbatim>\<open>i2c_write_blocking\<close> and \<^verbatim>\<open>i2c_read_blocking\<close>. The SDK is not part of the
  repository, so the bus is an explicit environment: a script of the answers the bus will
  give, one per SDK call in the order the calls are made, and a log of the calls the
  driver issued. An answer is the SDK return code (negative on error) together with the
  byte that a read stores into the caller's buffer. Every read of the driver has length 1
  and targets a single local byte, so one byte per answer is all a read can deliver. When
  the script is used up the bus answers with \<^verbatim>\<open>PICO_ERROR_GENERIC\<close>.
\<close>

type_synonym i2c_reply = "int \<times> 8 word"

datatype i2c_call =
    I2C_Write "8 word" "8 word list" bool
  | I2C_Read "8 word" nat bool

record i2c_bus =
  pending :: "i2c_reply list"
  issued :: "i2c_call list"

definition PICO_ERROR_GENERIC :: int where
  "PICO_ERROR_GENERIC = -2"

fun next_reply :: "i2c_reply list \<Rightarrow> i2c_reply \<times> i2c_reply list" where
  "next_reply [] = ((PICO_ERROR_GENERIC, 0), [])"
| "next_reply (r # rs) = (r, rs)"

definition i2c_write_blocking ::
  "8 word \<Rightarrow> 8 word list \<Rightarrow> bool \<Rightarrow> i2c_bus \<Rightarrow> int \<times> i2c_bus" where
  "i2c_write_blocking addr src nostop bus =
     (case next_reply (pending bus) of
        ((ret, _), rest) \<Rightarrow>
          (ret, \<lparr>pending = rest, issued = issued bus @ [I2C_Write addr src nostop]\<rparr>))"

definition i2c_read_blocking ::
  "8 word \<Rightarrow> nat \<Rightarrow> bool \<Rightarrow> i2c_bus \<Rightarrow> (int \<times> 8 word) \<times> i2c_bus" where
  "i2c_read_blocking addr len nostop bus =
     (case next_reply (pending bus) of
        (r, rest) \<Rightarrow>
          (r, \<lparr>pending = rest, issued = issued bus @ [I2C_Read addr len nostop]\<rparr>))"

text \<open>The calls a driver run added to the log.\<close>

definition calls_during :: "i2c_bus \<Rightarrow> i2c_bus \<Rightarrow> i2c_call list" where
  "calls_during before after = drop (length (issued before)) (issued after)"

section \<open>The GT911 touch driver (gt911.h, gt911.c)\<close>

definition GT911_I2C_ADDR :: "8 word" where "GT911_I2C_ADDR = 0x5D"
definition GT911_REG_STATUS :: "16 word" where "GT911_REG_STATUS = 0x814E"
definition GT911_REG_PT1_X_L :: "16 word" where "GT911_REG_PT1_X_L = 0x8150"
definition GT911_REG_PT1_X_H :: "16 word" where "GT911_REG_PT1_X_H = 0x8151"
definition GT911_REG_PT1_Y_L :: "16 word" where "GT911_REG_PT1_Y_L = 0x8152"
definition GT911_REG_PT1_Y_H :: "16 word" where "GT911_REG_PT1_Y_H = 0x8153"
definition GT911_STATUS_BUF_READY :: "8 word" where "GT911_STATUS_BUF_READY = 0x80"
definition GT911_STATUS_PT_MASK :: "8 word" where "GT911_STATUS_PT_MASK = 0x0F"

text \<open>The device structure \<^verbatim>\<open>gt911_dev_t\<close> and the static variables of the driver: the
  device record and the two function-local statics of \<^verbatim>\<open>gt911_read_touch\<close>.\<close>

record gt911_dev_t =
  initialized :: bool
  product_id :: "8 word list"
  max_x :: "16 word"
  max_y :: "16 word"
  i2c_addr :: "8 word"

record gt911_state =
  gt911_dev :: gt911_dev_t
  last_x :: "16 word"
  last_y :: "16 word"

definition gt911_static_init :: gt911_state where
  "gt911_static_init =
     \<lparr>gt911_dev = \<lparr>initialized = False, product_id = [0, 0, 0, 0, 0], max_x = 0, max_y = 0,
                    i2c_addr = GT911_I2C_ADDR\<rparr>,
      last_x = 0, last_y = 0\<rparr>"

text \<open>\<^verbatim>\<open>gt911_i2c_read_reg\<close>: the 16-bit register address goes out high byte first with
  the bus kept (no STOP), then the data is read. \<^verbatim>\<open>None\<close> is the \<^verbatim>\<open>false\<close> return.
  The buffer pointer is the address of a local at every call site, so only the length
  part of the guard can fire.\<close>

definition gt911_i2c_read_reg ::
  "gt911_dev_t \<Rightarrow> 16 word \<Rightarrow> nat \<Rightarrow> i2c_bus \<Rightarrow> 8 word option \<times> i2c_bus" where
  "gt911_i2c_read_reg dev reg len bus =
     (if len = 0 then (None, bus)
      else
        let reg_addr = [ucast (drop_bit 8 reg AND 0xFF), ucast (reg AND 0xFF)] in
        case i2c_write_blocking (i2c_addr dev) reg_addr True bus of
          (ret, bus1) \<Rightarrow>
            if ret < 0 then (None, bus1)
            else
              case i2c_read_blocking (i2c_addr dev) len False bus1 of
                ((ret2, data), bus2) \<Rightarrow>
                  if ret2 < 0 then (None, bus2) else (Some data, bus2))"

text \<open>\<^verbatim>\<open>gt911_clear_status\<close>: one three-byte write, its return value dropped.\<close>

definition gt911_clear_status :: "gt911_dev_t \<Rightarrow> i2c_bus \<Rightarrow> i2c_bus" where
  "gt911_clear_status dev bus =
     snd (i2c_write_blocking (i2c_addr dev) [0x81, 0x4E, 0x00] False bus)"

text \<open>\<^verbatim>\<open>gt911_read_touch\<close>. The result is \<^verbatim>\<open>None\<close> for \<^verbatim>\<open>false\<close> and the three output
  parameters for \<^verbatim>\<open>true\<close>. The statics are written as the source writes them: each
  coordinate gets its low byte before the high byte is read, also when that next read
  fails.\<close>

type_synonym touch_sample = "16 word \<times> 16 word \<times> bool"

definition gt911_read_touch ::
  "gt911_state \<Rightarrow> i2c_bus \<Rightarrow> touch_sample option \<times> gt911_state \<times> i2c_bus" where
  "gt911_read_touch st bus =
     (if \<not> initialized (gt911_dev st) then (None, st, bus)
      else
        case gt911_i2c_read_reg (gt911_dev st) GT911_REG_STATUS 1 bus of
          (None, bus1) \<Rightarrow> (None, st, bus1)
        | (Some status_reg, bus1) \<Rightarrow>
            let touch_count = status_reg AND GT911_STATUS_PT_MASK;
                bus2 = (if status_reg AND GT911_STATUS_BUF_READY \<noteq> 0 \<or> touch_count < 6
                        then gt911_clear_status (gt911_dev st) bus1 else bus1)
            in
              if touch_count = 1 then
                case gt911_i2c_read_reg (gt911_dev st) GT911_REG_PT1_X_L 1 bus2 of
                  (None, bus3) \<Rightarrow> (None, st, bus3)
                | (Some xl, bus3) \<Rightarrow>
                    let st3 = st\<lparr>last_x := ucast xl\<rparr> in
                    case gt911_i2c_read_reg (gt911_dev st) GT911_REG_PT1_X_H 1 bus3 of
                      (None, bus4) \<Rightarrow> (None, st3, bus4)
                    | (Some xh, bus4) \<Rightarrow>
                        let st4 = st3\<lparr>last_x := last_x st3 OR push_bit 8 (ucast xh)\<rparr> in
                        case gt911_i2c_read_reg (gt911_dev st) GT911_REG_PT1_Y_L 1 bus4 of
                          (None, bus5) \<Rightarrow> (None, st4, bus5)
                        | (Some yl, bus5) \<Rightarrow>
                            let st5 = st4\<lparr>last_y := ucast yl\<rparr> in
                            case gt911_i2c_read_reg (gt911_dev st) GT911_REG_PT1_Y_H 1 bus5 of
                              (None, bus6) \<Rightarrow> (None, st5, bus6)
                            | (Some yh, bus6) \<Rightarrow>
                                let st6 = st5\<lparr>last_y := last_y st5 OR push_bit 8 (ucast yh)\<rparr>
                                in (Some (last_x st6, last_y st6, True), st6, bus6)
              else (Some (last_x st, last_y st, False), st, bus2))"

text \<open>The status-clear transaction on the wire: register 0x814E, data byte 0.\<close>

definition status_clear_call :: "gt911_dev_t \<Rightarrow> i2c_call" where
  "status_clear_call dev = I2C_Write (i2c_addr dev) [0x81, 0x4E, 0x00] False"

text \<open>The two bus calls of one successful or attempted register read.\<close>

definition reg_read_calls :: "gt911_dev_t \<Rightarrow> 16 word \<Rightarrow> i2c_call list" where
  "reg_read_calls dev reg =
     [I2C_Write (i2c_addr dev) [ucast (drop_bit 8 reg), ucast reg] True,
      I2C_Read (i2c_addr dev) 1 False]"

text \<open>Polling several times: each call gets the bus as the environment presents it at
  that moment, and hands the statics on to the next call.\<close>

fun read_touch_repeat :: "gt911_state \<Rightarrow> i2c_bus list \<Rightarrow> touch_sample option list" where
  "read_touch_repeat st [] = []"
| "read_touch_repeat st (bus # buses) =
     (case gt911_read_touch st bus of (res, st', _) \<Rightarrow> res # read_touch_repeat st' buses)"

section \<open>Joystick dead-zone mapping (main.c)\<close>

definition ADC_MAX_VALUE :: int where "ADC_MAX_VALUE = 4095"
definition ADC_CENTER :: int where "ADC_CENTER = 2048"
definition ADC_DEADZONE :: int where "ADC_DEADZONE = 150"

text \<open>The target's \<^verbatim>\<open>int\<close> has 32 bits and signed overflow is undefined in C. The
  arithmetic is done on mathematical integers and every intermediate result is checked
  against the 32-bit range: \<^verbatim>\<open>None\<close> stands for a call that leaves the range.\<close>

definition int32_ok :: "int \<Rightarrow> bool" where
  "int32_ok v \<longleftrightarrow> - (2 ^ 31) \<le> v \<and> v < 2 ^ 31"

definition c_int :: "int \<Rightarrow> int option" where
  "c_int v = (if int32_ok v then Some v else None)"

text \<open>\<^verbatim>\<open>map_adc_with_deadzone\<close>. The \<^verbatim>\<open>uint\<close> argument is cast to \<^verbatim>\<open>int\<close> (the same 32
  bits read as two's complement); \<^verbatim>\<open>/\<close> is C division, which truncates towards zero.\<close>

definition map_adc_with_deadzone :: "32 word \<Rightarrow> int \<Rightarrow> bool \<Rightarrow> int option" where
  "map_adc_with_deadzone adc_raw max_pos invert =
     do {
       max_pos \<leftarrow> c_int max_pos;
       offset \<leftarrow> c_int (sint adc_raw - ADC_CENTER);
       magnitude \<leftarrow> c_int \<bar>offset\<bar>;
       if magnitude < ADC_DEADZONE then Some (max_pos sdiv 2)
       else do {
         mapped \<leftarrow>
           (if offset > 0 then do {
              let range = ADC_CENTER - ADC_DEADZONE;
              shifted \<leftarrow> c_int (offset - ADC_DEADZONE);
              product \<leftarrow> c_int (shifted * (max_pos sdiv 2));
              let scaled = product sdiv range;
              c_int (max_pos sdiv 2 + scaled)
            } else do {
              let range = ADC_CENTER - ADC_DEADZONE;
              shifted \<leftarrow> c_int (offset + ADC_DEADZONE);
              product \<leftarrow> c_int (shifted * (max_pos sdiv 2));
              let scaled = product sdiv range;
              c_int (max_pos sdiv 2 + scaled)
            });
         let mapped = (if mapped < 0 then 0 else mapped);
         let mapped = (if mapped > max_pos then max_pos else mapped);
         if invert then c_int (max_pos - mapped) else Some mapped
       }
     }"

text \<open>For the proofs: the value the arithmetic above yields outside the dead zone before
  the optional inversion, as a function of the offset, on unbounded integers.\<close>

definition deadzone_value :: "int \<Rightarrow> int \<Rightarrow> int" where
  "deadzone_value offset max_pos =
     (let half = max_pos sdiv 2;
          mapped = half + ((if offset > 0 then offset - 150 else offset + 150) * half) sdiv 1898;
          mapped = (if mapped < 0 then 0 else mapped)
      in if mapped > max_pos then max_pos else mapped)"

section \<open>Button interrupt handler (main.c)\<close>

definition GPIO_BUTTON_1 :: "32 word" where "GPIO_BUTTON_1 = 15"
definition GPIO_BUTTON_2 :: "32 word" where "GPIO_BUTTON_2 = 14"
definition GPIO_BUTTON_RESET :: "32 word" where "GPIO_BUTTON_RESET = 22"
definition GPIO_LED_1 :: "32 word" where "GPIO_LED_1 = 16"
definition GPIO_LED_2 :: "32 word" where "GPIO_LED_2 = 17"
definition BTN_DEBOUNCE_MS :: "32 word" where "BTN_DEBOUNCE_MS = 50"

text \<open>Event masks of the Pico SDK (\<^verbatim>\<open>hardware/gpio.h\<close>), which is not part of the
  repository: falling edge is bit 2, rising edge is bit 3.\<close>

definition GPIO_IRQ_EDGE_FALL :: "32 word" where "GPIO_IRQ_EDGE_FALL = 0x4"
definition GPIO_IRQ_EDGE_RISE :: "32 word" where "GPIO_IRQ_EDGE_RISE = 0x8"

text \<open>What the handler reads and writes: the two debounce timestamps, the two on-screen
  indicators (\<^verbatim>\<open>lv_led_toggle\<close> of the graphics library switches an indicator between
  on and off) and the output level of the GPIO pins.\<close>

record button_state =
  btn1_last_time :: "32 word"
  btn2_last_time :: "32 word"
  led1 :: bool
  led2 :: bool
  gpio_level :: "32 word \<Rightarrow> bool"

definition button_static_init :: button_state where
  "button_static_init =
     \<lparr>btn1_last_time = 0, btn2_last_time = 0, led1 = False, led2 = False,
      gpio_level = (\<lambda>_. False)\<rparr>"

definition gpio_put :: "32 word \<Rightarrow> bool \<Rightarrow> button_state \<Rightarrow> button_state" where
  "gpio_put pin v st = st\<lparr>gpio_level := (gpio_level st)(pin := v)\<rparr>"

definition gpio_get :: "32 word \<Rightarrow> button_state \<Rightarrow> bool" where
  "gpio_get pin st = gpio_level st pin"

text \<open>\<^verbatim>\<open>on_button_interrupt\<close>; \<^verbatim>\<open>now\<close> is the value of
  \<^verbatim>\<open>to_ms_since_boot(get_absolute_time())\<close> at the interrupt, an unsigned 32-bit count of
  milliseconds, and the subtraction wraps as \<^verbatim>\<open>uint32_t\<close> does.\<close>

definition on_button_interrupt ::
  "32 word \<Rightarrow> 32 word \<Rightarrow> 32 word \<Rightarrow> button_state \<Rightarrow> button_state" where
  "on_button_interrupt gpio_pin events now st =
     (if events AND GPIO_IRQ_EDGE_RISE = 0 then st
      else if gpio_pin = GPIO_BUTTON_1 then
        (if now - btn1_last_time st > BTN_DEBOUNCE_MS then
           let st1 = st\<lparr>btn1_last_time := now\<rparr>;
               st2 = st1\<lparr>led1 := \<not> led1 st1\<rparr>
           in gpio_put GPIO_LED_1 (\<not> gpio_get GPIO_LED_1 st2) st2
         else st)
      else if gpio_pin = GPIO_BUTTON_2 then
        (if now - btn2_last_time st > BTN_DEBOUNCE_MS then
           let st1 = st\<lparr>btn2_last_time := now\<rparr>;
               st2 = st1\<lparr>led2 := \<not> led2 st1\<rparr>
           in gpio_put GPIO_LED_2 (\<not> gpio_get GPIO_LED_2 st2) st2
         else st)
      else st)"

section \<open>The ST7796 display driver (st7796.h, st7796.c)\<close>

text \<open>Everything the display code does to the outside is a pin write, a delay, an SPI
  burst or the completion call into the graphics library. The code is modelled as a
  function that appends these events, in program order, to a trace.\<close>

datatype hw_event =
    Gpio_Put nat bool
  | Sleep_Us nat
  | Spi_Write "8 word list"
  | Flush_Ready

definition ST7796_PIN_CS :: nat where "ST7796_PIN_CS = 5"
definition ST7796_PIN_DC :: nat where "ST7796_PIN_DC = 6"
definition ST7796_PIN_RST :: nat where "ST7796_PIN_RST = 7"
definition ST7796_CMD_CASET :: "8 word" where "ST7796_CMD_CASET = 0x2A"
definition ST7796_CMD_RASET :: "8 word" where "ST7796_CMD_RASET = 0x2B"
definition ST7796_CMD_RAMWR :: "8 word" where "ST7796_CMD_RAMWR = 0x2C"

definition LCD_CS_LOW :: "hw_event list \<Rightarrow> hw_event list" where
  "LCD_CS_LOW tr = tr @ [Gpio_Put ST7796_PIN_CS False]"
definition LCD_CS_HIGH :: "hw_event list \<Rightarrow> hw_event list" where
  "LCD_CS_HIGH tr = tr @ [Gpio_Put ST7796_PIN_CS True]"
definition LCD_DC_CMD :: "hw_event list \<Rightarrow> hw_event list" where
  "LCD_DC_CMD tr = tr @ [Gpio_Put ST7796_PIN_DC False]"
definition LCD_DC_DATA :: "hw_event list \<Rightarrow> hw_event list" where
  "LCD_DC_DATA tr = tr @ [Gpio_Put ST7796_PIN_DC True]"
definition sleep_us :: "nat \<Rightarrow> hw_event list \<Rightarrow> hw_event list" where
  "sleep_us n tr = tr @ [Sleep_Us n]"

text \<open>\<^verbatim>\<open>spi_write_blocking\<close> of the Pico SDK sends \<^verbatim>\<open>len\<close> bytes starting at the source
  pointer. A pointer is modelled by the bytes of the object it points to, in memory
  order. A length beyond the object is a read past its end in C and has no meaning here;
  the statements about transmitted bytes require the object to be long enough.\<close>

definition spi_write_blocking :: "8 word list \<Rightarrow> nat \<Rightarrow> hw_event list \<Rightarrow> hw_event list" where
  "spi_write_blocking src len tr = tr @ [Spi_Write (take len src)]"

definition st7796_write_cmd :: "8 word \<Rightarrow> hw_event list \<Rightarrow> hw_event list" where
  "st7796_write_cmd cmd tr =
     LCD_CS_HIGH (sleep_us 1 (spi_write_blocking [cmd] 1 (sleep_us 1 (LCD_DC_CMD (LCD_CS_LOW tr)))))"

text \<open>A null pointer is \<^verbatim>\<open>None\<close>.\<close>

definition st7796_write_data ::
  "8 word list option \<Rightarrow> 16 word \<Rightarrow> hw_event list \<Rightarrow> hw_event list" where
  "st7796_write_data data len tr =
     (case data of
        None \<Rightarrow> tr
      | Some bytes \<Rightarrow>
          if len = 0 then tr
          else LCD_CS_HIGH (sleep_us 1 (spi_write_blocking bytes (unat len)
                 (sleep_us 1 (LCD_DC_DATA (LCD_CS_LOW tr))))))"

definition st7796_set_window ::
  "16 word \<Rightarrow> 16 word \<Rightarrow> 16 word \<Rightarrow> 16 word \<Rightarrow> hw_event list \<Rightarrow> hw_event list" where
  "st7796_set_window wx1 wy1 wx2 wy2 tr =
     (let tr1 = st7796_write_cmd ST7796_CMD_CASET tr;
          data = [ucast (drop_bit 8 wx1 AND 0xFF), ucast (wx1 AND 0xFF),
                  ucast (drop_bit 8 wx2 AND 0xFF), ucast (wx2 AND 0xFF)];
          tr2 = st7796_write_data (Some data) 4 tr1;
          tr3 = st7796_write_cmd ST7796_CMD_RASET tr2;
          data = [ucast (drop_bit 8 wy1 AND 0xFF), ucast (wy1 AND 0xFF),
                  ucast (drop_bit 8 wy2 AND 0xFF), ucast (wy2 AND 0xFF)];
          tr4 = st7796_write_data (Some data) 4 tr3
      in st7796_write_cmd ST7796_CMD_RAMWR tr4)"

text \<open>\<^verbatim>\<open>st7796_write_color\<close>: \<^verbatim>\<open>len\<close> counts pixels, the byte count \<^verbatim>\<open>len * 2\<close> is
  computed in \<^verbatim>\<open>uint32_t\<close> and wraps there. The colour pointer is cast to a byte pointer,
  so the buffer is given by its bytes.\<close>

definition st7796_write_color ::
  "8 word list option \<Rightarrow> 32 word \<Rightarrow> hw_event list \<Rightarrow> hw_event list" where
  "st7796_write_color color len tr =
     (case color of
        None \<Rightarrow> tr
      | Some bytes \<Rightarrow>
          if len = 0 then tr
          else LCD_CS_HIGH (spi_write_blocking bytes (unat (len * 2)) (LCD_DC_DATA (LCD_CS_LOW tr))))"

section \<open>The display port of the graphics library (lv_port_disp.c)\<close>

text \<open>Modelled from the spec: the area type and its width and height come from the
  graphics library, which is not under src/. An area is four 16-bit signed coordinates;
  width and height are \<^verbatim>\<open>x2 - x1 + 1\<close> and \<^verbatim>\<open>y2 - y1 + 1\<close> cut to 16 bits (the spec
  computes the pixel count "from the area's width\<times>height"); the completion call is one
  event.\<close>

record lv_area_t =
  x1 :: "16 word"
  y1 :: "16 word"
  x2 :: "16 word"
  y2 :: "16 word"

definition lv_area_get_width :: "lv_area_t \<Rightarrow> 16 word" where
  "lv_area_get_width area = x2 area - x1 area + 1"

definition lv_area_get_height :: "lv_area_t \<Rightarrow> 16 word" where
  "lv_area_get_height area = y2 area - y1 area + 1"

definition lv_disp_flush_ready :: "hw_event list \<Rightarrow> hw_event list" where
  "lv_disp_flush_ready tr = tr @ [Flush_Ready]"

text \<open>\<^verbatim>\<open>disp_flush\<close>; the first argument is the value of the static flag
  \<^verbatim>\<open>disp_flush_enabled\<close> when the callback reads it. The two 16-bit factors are promoted
  to \<^verbatim>\<open>int\<close>, multiplied there (the product fits) and converted to \<^verbatim>\<open>uint32_t\<close>.\<close>

definition disp_flush ::
  "bool \<Rightarrow> lv_area_t \<Rightarrow> 8 word list option \<Rightarrow> hw_event list \<Rightarrow> hw_event list" where
  "disp_flush disp_flush_enabled area color_p tr =
     (if \<not> disp_flush_enabled then lv_disp_flush_ready tr
      else
        let tr1 = st7796_set_window (x1 area) (y1 area) (x2 area) (y2 area) tr;
            size = (word_of_int (sint (lv_area_get_width area) * sint (lv_area_get_height area))
                      :: 32 word);
            tr2 = st7796_write_color color_p size tr1
        in lv_disp_flush_ready tr2)"

section \<open>Concrete scenarios\<close>

definition demo_dev :: gt911_dev_t where
  "demo_dev = \<lparr>initialized = True, product_id = [0x39, 0x31, 0x31, 0, 0], max_x = 320,
                max_y = 480, i2c_addr = GT911_I2C_ADDR\<rparr>"

definition demo_state :: gt911_state where
  "demo_state = \<lparr>gt911_dev = demo_dev, last_x = 0, last_y = 0\<rparr>"

text \<open>A bus on which the status register reads 0x81 and the point-1 registers read
  0x64, 0x00, 0xC8, 0x00; every transfer is acknowledged.\<close>

definition press_bus :: i2c_bus where
  "press_bus =
     \<lparr>pending = [(2, 0), (1, 0x81), (3, 0), (2, 0), (1, 0x64), (2, 0), (1, 0x00),
                 (2, 0), (1, 0xC8), (2, 0), (1, 0x00)],
      issued = []\<rparr>"

text \<open>A bus on which the status register reads 0x00.\<close>

definition release_bus :: i2c_bus where
  "release_bus = \<lparr>pending = [(2, 0), (1, 0x00), (3, 0)], issued = []\<rparr>"

text \<open>A bus on which the status register reads 0x82: two touch points.\<close>

definition multi_bus :: i2c_bus where
  "multi_bus = \<lparr>pending = [(2, 0), (1, 0x82), (3, 0)], issued = []\<rparr>"

text \<open>The driver statics after the press scenario.\<close>

definition pressed_state :: gt911_state where
  "pressed_state = fst (snd (gt911_read_touch demo_state press_bus))"

text \<open>A bus on which the status register reads 0x81, the X-low register reads 0x34 and
  the address write of the X-high read is not acknowledged.\<close>

definition partial_read_bus :: i2c_bus where
  "partial_read_bus =
     \<lparr>pending = [(2, 0), (1, 0x81), (3, 0), (2, 0), (1, 0x34), (PICO_ERROR_GENERIC, 0)],
      issued = []\<rparr>"

text \<open>The press scenario with the clear write not acknowledged.\<close>

definition nack_clear_bus :: i2c_bus where
  "nack_clear_bus =
     \<lparr>pending = [(2, 0), (1, 0x81), (PICO_ERROR_GENERIC, 0), (2, 0), (1, 0x64), (2, 0), (1, 0x00),
                 (2, 0), (1, 0xC8), (2, 0), (1, 0x00)],
      issued = []\<rparr>"

text \<open>The button state after a first accepted press of button 1, 100 ms after boot.\<close>

definition first_press_state :: button_state where
  "first_press_state = on_button_interrupt GPIO_BUTTON_1 GPIO_IRQ_EDGE_RISE 100 button_static_init"

text \<open>A buffer of two pixels, as bytes in memory order.\<close>

definition demo_pixels :: "8 word list" where
  "demo_pixels = [0x12, 0x34, 0x56, 0x78]"

section \<open>Facts about the register access helpers\<close>

lemmas gt911_consts =
  GT911_I2C_ADDR_def GT911_REG_STATUS_def GT911_REG_PT1_X_L_def GT911_REG_PT1_X_H_def
  GT911_REG_PT1_Y_L_def GT911_REG_PT1_Y_H_def GT911_STATUS_BUF_READY_def
  GT911_STATUS_PT_MASK_def

lemma byte_mask_16: "(0xFF :: 16 word) = mask 8"
  by (simp add: mask_eq_exp_minus_1)

lemma ucast_low_byte: "(ucast ((w :: 16 word) AND 0xFF) :: 8 word) = ucast w"
  unfolding byte_mask_16 by (rule bit_word_eqI) (auto simp add: bit_simps)

lemma buf_ready_bit: "(s :: 8 word) AND 0x80 \<noteq> 0 \<longleftrightarrow> bit s 7"
  using and_exp_eq_0_iff_not_bit [of s 7] by simp

lemma gt911_i2c_read_reg_Some:
  assumes "gt911_i2c_read_reg dev reg (Suc 0) bus = (Some b, bus')"
  shows "\<exists>r0 x0 r1 rest. pending bus = (r0, x0) # (r1, b) # rest \<and> 0 \<le> r0 \<and> 0 \<le> r1
           \<and> bus' = \<lparr>pending = rest, issued = issued bus @ reg_read_calls dev reg\<rparr>"
proof (cases "pending bus")
  case Nil
  with assms show ?thesis
    by (simp add: gt911_i2c_read_reg_def i2c_write_blocking_def PICO_ERROR_GENERIC_def Let_def)
next
  case (Cons p ps)
  obtain r0 x0 where p: "p = (r0, x0)" by (cases p)
  show ?thesis
  proof (cases ps)
    case Nil
    with assms Cons p show ?thesis
      by (simp add: gt911_i2c_read_reg_def i2c_write_blocking_def i2c_read_blocking_def
          PICO_ERROR_GENERIC_def Let_def split: if_splits)
  next
    case (Cons q rest)
    obtain r1 x1 where q: "q = (r1, x1)" by (cases q)
    from assms \<open>pending bus = p # ps\<close> Cons p q show ?thesis
      by (auto simp add: gt911_i2c_read_reg_def i2c_write_blocking_def i2c_read_blocking_def
          reg_read_calls_def Let_def ucast_low_byte split: if_splits)
  qed
qed

lemma gt911_i2c_read_reg_ok:
  assumes "pending bus = (r0, x0) # (r1, b) # rest" "0 \<le> r0" "0 \<le> r1"
  shows "gt911_i2c_read_reg dev reg (Suc 0) bus =
           (Some b, \<lparr>pending = rest, issued = issued bus @ reg_read_calls dev reg\<rparr>)"
  using assms
  by (simp add: gt911_i2c_read_reg_def i2c_write_blocking_def i2c_read_blocking_def
          reg_read_calls_def Let_def ucast_low_byte)

text \<open>Whatever a register read does, it only adds calls of the register-read shape.\<close>

lemma gt911_i2c_read_reg_issued:
  assumes "gt911_i2c_read_reg dev reg (Suc 0) bus = (r, bus')"
  shows "\<exists>n. issued bus' = issued bus @ take n (reg_read_calls dev reg)"
proof -
  obtain p rest where nr: "next_reply (pending bus) = (p, rest)" by (cases "next_reply (pending bus)")
  obtain r0 x0 where p: "p = (r0, x0)" by (cases p)
  show ?thesis
  proof (cases "r0 < 0")
    case True
    with assms nr p have "issued bus' = issued bus @ take 1 (reg_read_calls dev reg)"
      by (auto simp add: gt911_i2c_read_reg_def i2c_write_blocking_def 
          reg_read_calls_def Let_def ucast_low_byte split: if_splits)
    then show ?thesis by blast
  next
    case False
    with assms nr p have "issued bus' = issued bus @ take 2 (reg_read_calls dev reg)"
      by (auto simp add: gt911_i2c_read_reg_def i2c_write_blocking_def i2c_read_blocking_def
          reg_read_calls_def Let_def ucast_low_byte split: if_splits prod.splits)
    then show ?thesis by blast
  qed
qed

lemma gt911_clear_status_eq:
  "gt911_clear_status dev bus =
     \<lparr>pending = snd (next_reply (pending bus)), issued = issued bus @ [status_clear_call dev]\<rparr>"
  by (simp add: gt911_clear_status_def i2c_write_blocking_def status_clear_call_def
      split: prod.splits)

lemma clear_not_reg_read: "status_clear_call dev \<notin> set (reg_read_calls dev reg)"
  by (simp add: status_clear_call_def reg_read_calls_def)

lemma read_reg_keeps_clear_free:
  assumes "gt911_i2c_read_reg dev reg (Suc 0) b = (r, b')"
    and "issued b = base @ tl0" and "status_clear_call dev \<notin> set tl0"
  shows "\<exists>tl1. issued b' = base @ tl1 \<and> status_clear_call dev \<notin> set tl1"
proof -
  from gt911_i2c_read_reg_issued [OF assms(1)] obtain n where
    n: "issued b' = issued b @ take n (reg_read_calls dev reg)" by blast
  have "status_clear_call dev \<notin> set (take n (reg_read_calls dev reg))"
    using clear_not_reg_read [of dev reg] by (auto dest: in_set_takeD)
  with n assms(2,3) show ?thesis by simp
qed

lemma clear_needed_iff:
  "((s :: 8 word) AND GT911_STATUS_BUF_READY \<noteq> 0 \<or> s AND GT911_STATUS_PT_MASK < 6)
     \<longleftrightarrow> (bit s 7 \<or> unat (s AND 0x0F) < 6)"
  by (simp add: GT911_STATUS_BUF_READY_def GT911_STATUS_PT_MASK_def buf_ready_bit
      word_less_nat_alt)

lemma read_touch_released:
  assumes "initialized (gt911_dev st)"
    and "gt911_i2c_read_reg (gt911_dev st) GT911_REG_STATUS (Suc 0) bus = (Some s, bus1)"
    and "s AND 0x0F \<noteq> 1"
  shows "gt911_read_touch st bus =
           (Some (last_x st, last_y st, False), st,
            if bit s 7 \<or> unat (s AND 0x0F) < 6 then gt911_clear_status (gt911_dev st) bus1
            else bus1)"
  using assms clear_needed_iff [of s]
  by (simp add: gt911_read_touch_def Let_def GT911_STATUS_PT_MASK_def)

lemma read_touch_issued:
  assumes init: "initialized (gt911_dev st)"
    and status: "gt911_i2c_read_reg (gt911_dev st) GT911_REG_STATUS (Suc 0) bus = (Some s, bus1)"
    and run: "gt911_read_touch st bus = (res, st', bus')"
  shows "\<exists>tail. issued bus' =
            issued bus1 @ (if bit s 7 \<or> unat (s AND 0x0F) < 6
                           then [status_clear_call (gt911_dev st)] else []) @ tail
          \<and> status_clear_call (gt911_dev st) \<notin> set tail"
proof (cases "s AND 0x0F = 1")
  case False
  with read_touch_released [OF init status] run show ?thesis
    by (auto simp add: gt911_clear_status_eq)
next
  case True
  let ?dev = "gt911_dev st"
  define bus2 where "bus2 = (if bit s 7 \<or> unat (s AND 0x0F) < 6
                             then gt911_clear_status ?dev bus1 else bus1)"
  define base where "base = issued bus1 @ (if bit s 7 \<or> unat (s AND 0x0F) < 6
                           then [status_clear_call ?dev] else [])"
  have b2: "issued bus2 = base @ []"
    by (simp add: bus2_def base_def gt911_clear_status_eq)
  obtain r3 b3 where e3: "gt911_i2c_read_reg ?dev GT911_REG_PT1_X_L (Suc 0) bus2 = (r3, b3)"
    by (cases "gt911_i2c_read_reg ?dev GT911_REG_PT1_X_L (Suc 0) bus2")
  obtain r4 b4 where e4: "gt911_i2c_read_reg ?dev GT911_REG_PT1_X_H (Suc 0) b3 = (r4, b4)"
    by (cases "gt911_i2c_read_reg ?dev GT911_REG_PT1_X_H (Suc 0) b3")
  obtain r5 b5 where e5: "gt911_i2c_read_reg ?dev GT911_REG_PT1_Y_L (Suc 0) b4 = (r5, b5)"
    by (cases "gt911_i2c_read_reg ?dev GT911_REG_PT1_Y_L (Suc 0) b4")
  obtain r6 b6 where e6: "gt911_i2c_read_reg ?dev GT911_REG_PT1_Y_H (Suc 0) b5 = (r6, b6)"
    by (cases "gt911_i2c_read_reg ?dev GT911_REG_PT1_Y_H (Suc 0) b5")
  from read_reg_keeps_clear_free [OF e3 b2] obtain t3 where
    t3: "issued b3 = base @ t3" "status_clear_call ?dev \<notin> set t3" by auto
  from read_reg_keeps_clear_free [OF e4 t3] obtain t4 where
    t4: "issued b4 = base @ t4" "status_clear_call ?dev \<notin> set t4" by auto
  from read_reg_keeps_clear_free [OF e5 t4] obtain t5 where
    t5: "issued b5 = base @ t5" "status_clear_call ?dev \<notin> set t5" by auto
  from read_reg_keeps_clear_free [OF e6 t5] obtain t6 where
    t6: "issued b6 = base @ t6" "status_clear_call ?dev \<notin> set t6" by auto
  have "bus' = b3 \<or> bus' = b4 \<or> bus' = b5 \<or> bus' = b6"
    using run init status True e3 [unfolded bus2_def] e4 e5 e6 clear_needed_iff [of s]
    by (auto simp add: gt911_read_touch_def Let_def GT911_STATUS_PT_MASK_def
        split: option.splits if_splits)
  with t3 t4 t5 t6 show ?thesis
    unfolding base_def by auto
qed

lemma read_touch_pressed:
  assumes init: "initialized (gt911_dev st)"
    and pend: "pending bus = (r0, x0) # (r1, s) # c # (r2, z2) # (r3, xl) # (r4, z4) # (r5, xh)
                 # (r6, z6) # (r7, yl) # (r8, z8) # (r9, yh) # rest"
    and ok: "0 \<le> r0" "0 \<le> r1" "0 \<le> r2" "0 \<le> r3" "0 \<le> r4" "0 \<le> r5" "0 \<le> r6" "0 \<le> r7"
            "0 \<le> r8" "0 \<le> r9"
    and cnt: "s AND 0x0F = 1"
  shows "gt911_read_touch st bus =
           (Some (ucast xl OR push_bit 8 (ucast xh), ucast yl OR push_bit 8 (ucast yh), True),
            st\<lparr>last_x := ucast xl OR push_bit 8 (ucast xh),
               last_y := ucast yl OR push_bit 8 (ucast yh)\<rparr>,
            \<lparr>pending = rest,
             issued = issued bus @ reg_read_calls (gt911_dev st) GT911_REG_STATUS
                      @ [status_clear_call (gt911_dev st)]
                      @ reg_read_calls (gt911_dev st) GT911_REG_PT1_X_L
                      @ reg_read_calls (gt911_dev st) GT911_REG_PT1_X_H
                      @ reg_read_calls (gt911_dev st) GT911_REG_PT1_Y_L
                      @ reg_read_calls (gt911_dev st) GT911_REG_PT1_Y_H\<rparr>)"
proof -
  have c6: "s AND GT911_STATUS_PT_MASK < 6" using cnt by (simp add: GT911_STATUS_PT_MASK_def)
  obtain cr cx where c: "c = (cr, cx)" by (cases c)
  show ?thesis
    using init pend ok cnt c6 c
    by (simp add: gt911_read_touch_def gt911_i2c_read_reg_ok gt911_clear_status_eq
        GT911_STATUS_PT_MASK_def Let_def)
qed



lemma read_touch_Some_pressed:
  assumes "gt911_read_touch st0 bus0 = (Some (px, py, True), st, b')"
  shows "last_x st = px \<and> last_y st = py \<and> gt911_dev st = gt911_dev st0
         \<and> initialized (gt911_dev st0)"
  using assms
  by (auto simp add: gt911_read_touch_def Let_def split: if_splits option.splits prod.splits)

lemma read_touch_repeat_idle:
  assumes "initialized (gt911_dev st)"
    and "\<forall>b \<in> set buses. \<exists>s b1.
           gt911_i2c_read_reg (gt911_dev st) GT911_REG_STATUS (Suc 0) b = (Some s, b1)
           \<and> s AND 0x0F \<noteq> 1"
  shows "read_touch_repeat st buses
           = replicate (length buses) (Some (last_x st, last_y st, False))"
  using assms(2)
proof (induction buses)
  case Nil
  show ?case by simp
next
  case (Cons b bs)
  from Cons.prems obtain s b1 where
    sb: "gt911_i2c_read_reg (gt911_dev st) GT911_REG_STATUS (Suc 0) b = (Some s, b1)"
        "s AND 0x0F \<noteq> 1" by auto
  from Cons.prems have rest: "\<forall>b \<in> set bs. \<exists>s b1.
           gt911_i2c_read_reg (gt911_dev st) GT911_REG_STATUS (Suc 0) b = (Some s, b1)
           \<and> s AND 0x0F \<noteq> 1" by simp
  show ?case
    using read_touch_released [OF assms(1) sb] Cons.IH [OF rest] by simp
qed

lemma read_touch_clear_reply:
  assumes init: "initialized (gt911_dev st)"
    and pend: "pending bus = (r0, z0) # (r1, s) # c # rest"
    and ok: "0 \<le> r0" "0 \<le> r1"
    and need: "bit s 7 \<or> unat (s AND 0x0F) < 6"
  shows "gt911_read_touch st (bus\<lparr>pending := (r0, z0) # (r1, s) # c' # rest\<rparr>)
           = gt911_read_touch st bus"
proof -
  have n: "s AND GT911_STATUS_BUF_READY \<noteq> 0 \<or> s AND GT911_STATUS_PT_MASK < 6"
    using need clear_needed_iff [of s] by simp
  have a: "gt911_i2c_read_reg (gt911_dev st) GT911_REG_STATUS (Suc 0) bus =
        (Some s, \<lparr>pending = c # rest, issued = issued bus @ reg_read_calls (gt911_dev st) GT911_REG_STATUS\<rparr>)"
    using pend ok by (simp add: gt911_i2c_read_reg_ok)
  have b: "gt911_i2c_read_reg (gt911_dev st) GT911_REG_STATUS (Suc 0) (bus\<lparr>pending := (r0, z0) # (r1, s) # c' # rest\<rparr>) =
        (Some s, \<lparr>pending = c' # rest, issued = issued bus @ reg_read_calls (gt911_dev st) GT911_REG_STATUS\<rparr>)"
    using ok by (simp add: gt911_i2c_read_reg_ok)
  show ?thesis
    using init n
    by (simp add: gt911_read_touch_def a b gt911_clear_status_eq Let_def)
qed

section \<open>The status-clear handshake\<close>

lemmas demo_defs = demo_dev_def demo_state_def press_bus_def
lemmas bus_eval = gt911_i2c_read_reg_def i2c_write_blocking_def i2c_read_blocking_def
  gt911_clear_status_def Let_def gt911_consts

lemma press_status:
  "gt911_i2c_read_reg (gt911_dev demo_state) GT911_REG_STATUS 1 press_bus =
     (Some 0x81, \<lparr>pending = [(3, 0), (2, 0), (1, 0x64), (2, 0), (1, 0x00),
                 (2, 0), (1, 0xC8), (2, 0), (1, 0x00)], issued = reg_read_calls demo_dev GT911_REG_STATUS\<rparr>)"
  by (simp add: demo_defs bus_eval reg_read_calls_def)

lemma press_run:
  "gt911_read_touch demo_state press_bus =
     (Some (100, 200, True), demo_state\<lparr>last_x := 100, last_y := 200\<rparr>,
      \<lparr>pending = [],
        issued = reg_read_calls demo_dev GT911_REG_STATUS @ [status_clear_call demo_dev]
               @ reg_read_calls demo_dev GT911_REG_PT1_X_L
               @ reg_read_calls demo_dev GT911_REG_PT1_X_H
               @ reg_read_calls demo_dev GT911_REG_PT1_Y_L
               @ reg_read_calls demo_dev GT911_REG_PT1_Y_H\<rparr>)"
  apply (simp add: gt911_read_touch_def demo_defs bus_eval)
  apply (simp add: reg_read_calls_def status_clear_call_def)
  done

lemma pressed_state_eq: "pressed_state = demo_state\<lparr>last_x := 100, last_y := 200\<rparr>"
  by (simp add: pressed_state_def press_run)

lemma release_status:
  "gt911_i2c_read_reg (gt911_dev pressed_state) GT911_REG_STATUS 1 release_bus =
     (Some 0x00, \<lparr>pending = [(3, 0)], issued = reg_read_calls demo_dev GT911_REG_STATUS\<rparr>)"
  by (simp add: pressed_state_eq demo_defs release_bus_def bus_eval reg_read_calls_def)

lemma multi_status:
  "gt911_i2c_read_reg (gt911_dev pressed_state) GT911_REG_STATUS 1 multi_bus =
     (Some 0x82, \<lparr>pending = [(3, 0)], issued = reg_read_calls demo_dev GT911_REG_STATUS\<rparr>)"
  by (simp add: pressed_state_eq demo_defs multi_bus_def bus_eval reg_read_calls_def)

text \<open>
  Claim C1. Whenever \<^verbatim>\<open>gt911_read_touch\<close> has read a status byte, the calls it makes on
  the bus contain the status-clear write (zero to register 0x814E) exactly once if bit 7
  of the byte is set or its low four bits are below 6, and not at all otherwise. The clear
  write comes directly after the two bus calls of the status read; everything after it
  (the coordinate reads) contains no further clear write.
\<close>

theorem C1_status_clear_handshake:
  assumes "initialized (gt911_dev st)"
    and "gt911_i2c_read_reg (gt911_dev st) GT911_REG_STATUS 1 bus = (Some s, bus1)"
    and "gt911_read_touch st bus = (res, st', bus')"
  shows "count_list (calls_during bus bus') (status_clear_call (gt911_dev st)) =
           (if bit s 7 \<or> unat (s AND 0x0F) < 6 then 1 else 0)
         \<and> (\<exists>tail. calls_during bus bus' =
                reg_read_calls (gt911_dev st) GT911_REG_STATUS
                @ (if bit s 7 \<or> unat (s AND 0x0F) < 6
                   then [status_clear_call (gt911_dev st)] else [])
                @ tail
              \<and> status_clear_call (gt911_dev st) \<notin> set tail)"
proof -
  from assms(2) have status: "gt911_i2c_read_reg (gt911_dev st) GT911_REG_STATUS (Suc 0) bus = (Some s, bus1)"
    by simp
  from gt911_i2c_read_reg_Some [OF status]
  have b1: "issued bus1 = issued bus @ reg_read_calls (gt911_dev st) GT911_REG_STATUS"
    by auto
  from read_touch_issued [OF assms(1) status assms(3)] obtain tail where
    t: "issued bus' = issued bus1 @ (if bit s 7 \<or> unat (s AND 0x0F) < 6
                           then [status_clear_call (gt911_dev st)] else []) @ tail"
       "status_clear_call (gt911_dev st) \<notin> set tail" by blast
  have cd: "calls_during bus bus' = reg_read_calls (gt911_dev st) GT911_REG_STATUS
                @ (if bit s 7 \<or> unat (s AND 0x0F) < 6
                   then [status_clear_call (gt911_dev st)] else []) @ tail"
    using t(1) b1 by (simp add: calls_during_def)
  have "count_list tail (status_clear_call (gt911_dev st)) = 0"
    using t(2) by (simp add: count_list_0_iff)
  moreover have "count_list (reg_read_calls (gt911_dev st) GT911_REG_STATUS) (status_clear_call (gt911_dev st)) = 0"
    using clear_not_reg_read by (simp add: count_list_0_iff)
  ultimately have "count_list (calls_during bus bus') (status_clear_call (gt911_dev st)) =
           (if bit s 7 \<or> unat (s AND 0x0F) < 6 then 1 else 0)"
    unfolding cd by simp
  with cd t(2) show ?thesis by blast
qed

theorem C1_witness:
  "initialized (gt911_dev demo_state)
   \<and> fst (gt911_i2c_read_reg (gt911_dev demo_state) GT911_REG_STATUS 1 press_bus) = Some 0x81
   \<and> count_list (calls_during press_bus (snd (snd (gt911_read_touch demo_state press_bus))))
         (status_clear_call (gt911_dev demo_state)) = 1"
proof -
  have i: "initialized (gt911_dev demo_state)" by (simp add: demo_defs)
  from C1_status_clear_handshake [OF i press_status press_run]
  have "count_list (calls_during press_bus (snd (snd (gt911_read_touch demo_state press_bus))))
         (status_clear_call (gt911_dev demo_state)) = (if bit (0x81 :: 8 word) 7 \<or> unat ((0x81 :: 8 word) AND 0x0F) < 6 then 1 else 0)"
    by (simp only: press_run snd_conv)
  then show ?thesis using i press_status by simp
qed

section \<open>The single-touch scenario\<close>

text \<open>
  Claim C3. On an initialised driver, when the status read delivers 0x81 and the four
  point-1 reads deliver 0x64, 0x00, 0xC8, 0x00 (every transfer of the reads acknowledged,
  whatever the bus answers to the clear write), \<^verbatim>\<open>gt911_read_touch\<close> returns true with
  x = 100, y = 200, pressed = true, stores the same in its statics, and its bus calls are:
  the status read, the status-clear write, then the reads of X-low, X-high, Y-low, Y-high.
\<close>

theorem C3_single_touch_scenario:
  assumes "initialized (gt911_dev st)"
    and "pending bus = (r0, z0) # (r1, 0x81) # c # (r2, z2) # (r3, 0x64) # (r4, z4) # (r5, 0x00)
                 # (r6, z6) # (r7, 0xC8) # (r8, z8) # (r9, 0x00) # rest"
    and "0 \<le> r0" "0 \<le> r1" "0 \<le> r2" "0 \<le> r3" "0 \<le> r4" "0 \<le> r5" "0 \<le> r6" "0 \<le> r7"
        "0 \<le> r8" "0 \<le> r9"
  shows "\<exists>st' bus'. gt911_read_touch st bus = (Some (100, 200, True), st', bus')
           \<and> last_x st' = 100 \<and> last_y st' = 200
           \<and> calls_during bus bus' =
                reg_read_calls (gt911_dev st) GT911_REG_STATUS
                @ [status_clear_call (gt911_dev st)]
                @ reg_read_calls (gt911_dev st) GT911_REG_PT1_X_L
                @ reg_read_calls (gt911_dev st) GT911_REG_PT1_X_H
                @ reg_read_calls (gt911_dev st) GT911_REG_PT1_Y_L
                @ reg_read_calls (gt911_dev st) GT911_REG_PT1_Y_H"
proof -
  have cnt: "(0x81 :: 8 word) AND 0x0F = 1" by simp
  have x: "(ucast (0x64 :: 8 word) :: 16 word) OR push_bit 8 (ucast (0x00 :: 8 word)) = 100"
    by simp
  have y: "(ucast (0xC8 :: 8 word) :: 16 word) OR push_bit 8 (ucast (0x00 :: 8 word)) = 200"
    by simp
  from read_touch_pressed [OF assms cnt] show ?thesis
    unfolding x y by (simp add: calls_during_def)
qed

theorem C3_witness:
  "initialized (gt911_dev demo_state)
   \<and> (\<exists>st' bus'. gt911_read_touch demo_state press_bus = (Some (100, 200, True), st', bus')
           \<and> last_x st' = 100 \<and> last_y st' = 200
           \<and> calls_during press_bus bus' =
                reg_read_calls (gt911_dev demo_state) GT911_REG_STATUS
                @ [status_clear_call (gt911_dev demo_state)]
                @ reg_read_calls (gt911_dev demo_state) GT911_REG_PT1_X_L
                @ reg_read_calls (gt911_dev demo_state) GT911_REG_PT1_X_H
                @ reg_read_calls (gt911_dev demo_state) GT911_REG_PT1_Y_L
                @ reg_read_calls (gt911_dev demo_state) GT911_REG_PT1_Y_H)"
proof -
  have i: "initialized (gt911_dev demo_state)" by (simp add: demo_defs)
  have p: "pending press_bus = (2, 0) # (1, 0x81) # (3, 0) # (2, 0) # (1, 0x64) # (2, 0)
             # (1, 0x00) # (2, 0) # (1, 0xC8) # (2, 0) # (1, 0x00) # []"
    by (simp add: press_bus_def)
  from C3_single_touch_scenario [OF i p] i show ?thesis by simp
qed

section \<open>The result of the clear write is dropped\<close>

text \<open>
  Claim C10. When the status read succeeded and its byte calls for the clear write, the
  third answer of the bus is the answer to that write. Replacing it by any other answer
  (return code and byte) changes nothing: the return value, the output sample, the statics
  and the remaining bus state of \<^verbatim>\<open>gt911_read_touch\<close> are the same. In particular,
  whatever the return code of the clear write (a negative one included), the call
  returns true when the point count is not 1, and returns true with the coordinates read
  when the point count is 1 and the four coordinate reads succeed.
\<close>

theorem C10_clear_result_discarded:
  assumes "initialized (gt911_dev st)"
    and "pending bus = (r0, z0) # (r1, s) # (c, zc) # rest"
    and "0 \<le> r0" "0 \<le> r1"
    and "bit s 7 \<or> unat (s AND 0x0F) < 6"
  shows "gt911_read_touch st (bus\<lparr>pending := (r0, z0) # (r1, s) # (c', zc') # rest\<rparr>)
           = gt911_read_touch st bus
         \<and> (s AND 0x0F \<noteq> 1 \<longrightarrow>
              fst (gt911_read_touch st bus) = Some (last_x st, last_y st, False))
         \<and> (s AND 0x0F = 1
              \<and> rest = (r2, z2) # (r3, xl) # (r4, z4) # (r5, xh) # (r6, z6) # (r7, yl)
                         # (r8, z8) # (r9, yh) # rest'
              \<and> 0 \<le> r2 \<and> 0 \<le> r3 \<and> 0 \<le> r4 \<and> 0 \<le> r5 \<and> 0 \<le> r6 \<and> 0 \<le> r7 \<and> 0 \<le> r8 \<and> 0 \<le> r9 \<longrightarrow>
              fst (gt911_read_touch st bus) =
                Some (ucast xl OR push_bit 8 (ucast xh), ucast yl OR push_bit 8 (ucast yh), True))"
proof (intro conjI impI)
  show "gt911_read_touch st (bus\<lparr>pending := (r0, z0) # (r1, s) # (c', zc') # rest\<rparr>)
           = gt911_read_touch st bus"
    by (rule read_touch_clear_reply [OF assms])
next
  assume n1: "s AND 0x0F \<noteq> 1"
  have "gt911_i2c_read_reg (gt911_dev st) GT911_REG_STATUS (Suc 0) bus =
        (Some s, \<lparr>pending = (c, zc) # rest, issued = issued bus @ reg_read_calls (gt911_dev st) GT911_REG_STATUS\<rparr>)"
    using assms(2-4) by (simp add: gt911_i2c_read_reg_ok)
  from read_touch_released [OF assms(1) this n1]
  show "fst (gt911_read_touch st bus) = Some (last_x st, last_y st, False)" by simp
next
  assume h: "s AND 0x0F = 1
              \<and> rest = (r2, z2) # (r3, xl) # (r4, z4) # (r5, xh) # (r6, z6) # (r7, yl)
                         # (r8, z8) # (r9, yh) # rest'
              \<and> 0 \<le> r2 \<and> 0 \<le> r3 \<and> 0 \<le> r4 \<and> 0 \<le> r5 \<and> 0 \<le> r6 \<and> 0 \<le> r7 \<and> 0 \<le> r8 \<and> 0 \<le> r9"
  then have p: "pending bus = (r0, z0) # (r1, s) # (c, zc) # (r2, z2) # (r3, xl) # (r4, z4) # (r5, xh) # (r6, z6) # (r7, yl)
                         # (r8, z8) # (r9, yh) # rest'"
    using assms(2) by simp
  from h have "0 \<le> r2" "0 \<le> r3" "0 \<le> r4" "0 \<le> r5" "0 \<le> r6" "0 \<le> r7" "0 \<le> r8" "0 \<le> r9" "s AND 0x0F = 1"
    by simp_all
  from read_touch_pressed [OF assms(1) p assms(3,4) this]
  show "fst (gt911_read_touch st bus) =
                Some (ucast xl OR push_bit 8 (ucast xh), ucast yl OR push_bit 8 (ucast yh), True)"
    by simp
qed

theorem C10_witness:
  "initialized (gt911_dev demo_state)
   \<and> gt911_read_touch demo_state nack_clear_bus = gt911_read_touch demo_state press_bus
   \<and> fst (gt911_read_touch demo_state nack_clear_bus) = Some (100, 200, True)"
proof -
  have i: "initialized (gt911_dev demo_state)" by (simp add: demo_defs)
  have p: "pending nack_clear_bus = (2, 0) # (1, 0x81) # (PICO_ERROR_GENERIC, 0) # (2, 0) # (1, 0x64) # (2, 0)
             # (1, 0x00) # (2, 0) # (1, 0xC8) # (2, 0) # (1, 0x00) # []"
    by (simp add: nack_clear_bus_def)
  have b: "bit (0x81 :: 8 word) 7 \<or> unat ((0x81 :: 8 word) AND 0x0F) < 6" by simp
  have e: "nack_clear_bus\<lparr>pending := (2, 0) # (1, 0x81) # (3, 0) # (2, 0) # (1, 0x64) # (2, 0)
             # (1, 0x00) # (2, 0) # (1, 0xC8) # (2, 0) # (1, 0x00) # []\<rparr> = press_bus"
    by (simp add: nack_clear_bus_def press_bus_def)
  from C10_clear_result_discarded [OF i p _ _ b, of 3 0 2 0 1 "0x64" 2 0 1 0 2 0 1 "0xC8" 2 0 1 0 "[]"]
  show ?thesis using i unfolding e by simp
qed

section \<open>Release and multi-touch reads\<close>

text \<open>
  What holds of a read with a point count other than 1: it returns the statics with
  pressed = false and leaves them as they are, so a run of such reads repeats one sample;
  started directly after a read that returned (x, y, pressed = true), that sample is
  (x, y, pressed = false).
\<close>

lemma release_returns_statics:
  assumes "initialized (gt911_dev st)"
    and "\<forall>b \<in> set buses. \<exists>s b1.
           gt911_i2c_read_reg (gt911_dev st) GT911_REG_STATUS 1 b = (Some s, b1)
           \<and> s AND 0x0F \<noteq> 1"
  shows "read_touch_repeat st buses
           = replicate (length buses) (Some (last_x st, last_y st, False))
         \<and> (\<forall>b \<in> set buses. fst (gt911_read_touch st b) = Some (last_x st, last_y st, False)
                \<and> fst (snd (gt911_read_touch st b)) = st)
         \<and> (gt911_read_touch st0 bus0 = (Some (px, py, True), st, bus0') \<longrightarrow>
              read_touch_repeat st buses = replicate (length buses) (Some (px, py, False)))"
proof -
  from assms(2) have idle: "\<forall>b \<in> set buses. \<exists>s b1.
           gt911_i2c_read_reg (gt911_dev st) GT911_REG_STATUS (Suc 0) b = (Some s, b1)
           \<and> s AND 0x0F \<noteq> 1" by simp
  have rep: "read_touch_repeat st buses
           = replicate (length buses) (Some (last_x st, last_y st, False))"
    by (rule read_touch_repeat_idle [OF assms(1) idle])
  have single: "\<forall>b \<in> set buses. fst (gt911_read_touch st b) = Some (last_x st, last_y st, False)
                \<and> fst (snd (gt911_read_touch st b)) = st"
  proof
    fix b assume "b \<in> set buses"
    with idle obtain s b1 where
      sb: "gt911_i2c_read_reg (gt911_dev st) GT911_REG_STATUS (Suc 0) b = (Some s, b1)"
          "s AND 0x0F \<noteq> 1" by blast
    from read_touch_released [OF assms(1) sb]
    show "fst (gt911_read_touch st b) = Some (last_x st, last_y st, False)
                \<and> fst (snd (gt911_read_touch st b)) = st" by simp
  qed
  have press: "gt911_read_touch st0 bus0 = (Some (px, py, True), st, bus0') \<longrightarrow>
              read_touch_repeat st buses = replicate (length buses) (Some (px, py, False))"
    using rep read_touch_Some_pressed [of st0 bus0 px py st bus0'] by auto
  from rep single press show ?thesis by blast
qed

lemma partial_read_run:
  "gt911_read_touch (demo_state\<lparr>last_x := 100, last_y := 200\<rparr>) partial_read_bus =
     (None, demo_state\<lparr>last_x := 52, last_y := 200\<rparr>,
      \<lparr>pending = [],
        issued = reg_read_calls demo_dev GT911_REG_STATUS @ [status_clear_call demo_dev]
               @ reg_read_calls demo_dev GT911_REG_PT1_X_L
               @ take 1 (reg_read_calls demo_dev GT911_REG_PT1_X_H)\<rparr>)"
  apply (simp add: gt911_read_touch_def demo_defs partial_read_bus_def bus_eval
      PICO_ERROR_GENERIC_def)
  apply (simp add: reg_read_calls_def status_clear_call_def)
  done

lemma release_after_partial:
  "fst (gt911_read_touch (demo_state\<lparr>last_x := 52, last_y := 200\<rparr>) release_bus)
     = Some (52, 200, False)
   \<and> fst (snd (gt911_read_touch (demo_state\<lparr>last_x := 52, last_y := 200\<rparr>) release_bus))
     = demo_state\<lparr>last_x := 52, last_y := 200\<rparr>"
  by (simp add: gt911_read_touch_def demo_defs release_bus_def bus_eval)

lemma multi_after_partial:
  "fst (gt911_read_touch (demo_state\<lparr>last_x := 52, last_y := 200\<rparr>) multi_bus)
     = Some (52, 200, False)"
  by (simp add: gt911_read_touch_def demo_defs multi_bus_def bus_eval)

text \<open>
  Claim C2 asks every read with a point count other than 1 to return the coordinates of
  the last press with pressed = false, once a single-touch read has been observed. The
  driver writes the low byte of a coordinate into its static before it reads the high
  byte. In the run below the first call reports the press (100, 200). The second call
  reads status 0x81 and X-low 0x34, then the X-high read fails on the bus: the call
  returns false, but \<^verbatim>\<open>last_x\<close> is already 0x34 = 52. The third call reads status 0x00
  and the fourth reads status 0x82; both return (52, 200, pressed = false), a position
  that was never pressed, instead of (100, 200, pressed = false).
\<close>

theorem C2_failed_read_spoils_last_position:
  "read_touch_repeat demo_state [press_bus, partial_read_bus, release_bus, multi_bus]
     = [Some (100, 200, True), None, Some (52, 200, False), Some (52, 200, False)]"
proof -
  obtain b3 where r3: "gt911_read_touch (demo_state\<lparr>last_x := 52, last_y := 200\<rparr>) release_bus
      = (Some (52, 200, False), demo_state\<lparr>last_x := 52, last_y := 200\<rparr>, b3)"
    using release_after_partial
    by (cases "gt911_read_touch (demo_state\<lparr>last_x := 52, last_y := 200\<rparr>) release_bus") simp
  obtain s4 b4 where r4: "gt911_read_touch (demo_state\<lparr>last_x := 52, last_y := 200\<rparr>) multi_bus
      = (Some (52, 200, False), s4, b4)"
    using multi_after_partial
    by (cases "gt911_read_touch (demo_state\<lparr>last_x := 52, last_y := 200\<rparr>) multi_bus") simp
  show ?thesis
    by (simp add: press_run partial_read_run r3 r4)
qed

text \<open>
  Claim C4 as stated asks for no status-clear write in the call that reads status 0x00.
  The point count 0 is below 6, so the driver does issue the clear write in that call.
\<close>

theorem C4_counterexample:
  "fst (gt911_read_touch demo_state press_bus) = Some (100, 200, True)
   \<and> fst (gt911_i2c_read_reg (gt911_dev pressed_state) GT911_REG_STATUS 1 release_bus) = Some 0x00
   \<and> fst (gt911_read_touch pressed_state release_bus) = Some (100, 200, False)
   \<and> count_list (calls_during release_bus (snd (snd (gt911_read_touch pressed_state release_bus))))
        (status_clear_call (gt911_dev pressed_state)) \<noteq> 0"
  apply (simp add: press_run release_status)
  apply (simp add: gt911_read_touch_def pressed_state_eq demo_defs release_bus_def bus_eval)
  apply (simp add: calls_during_def status_clear_call_def)
  done

text \<open>
  Claim C4, amended. After a call that returned (x = 100, y = 200, pressed = true), a call
  whose status read delivers 0x00 returns true with x = 100, y = 200, pressed = false,
  leaves the statics unchanged, and performs exactly one status-clear write, directly
  after the status read.
\<close>

theorem C4_release_after_press:
  assumes "gt911_read_touch st0 bus0 = (Some (100, 200, True), st, bus0')"
    and "gt911_i2c_read_reg (gt911_dev st) GT911_REG_STATUS 1 bus = (Some 0x00, bus1)"
  shows "\<exists>bus'. gt911_read_touch st bus = (Some (100, 200, False), st, bus')
           \<and> calls_during bus bus' =
                reg_read_calls (gt911_dev st) GT911_REG_STATUS @ [status_clear_call (gt911_dev st)]
           \<and> count_list (calls_during bus bus') (status_clear_call (gt911_dev st)) = 1"
proof -
  from read_touch_Some_pressed [OF assms(1)] have
    l: "last_x st = 100" "last_y st = 200" and i: "initialized (gt911_dev st)" by simp_all
  from assms(2) have status:
    "gt911_i2c_read_reg (gt911_dev st) GT911_REG_STATUS (Suc 0) bus = (Some 0x00, bus1)" by simp
  from gt911_i2c_read_reg_Some [OF status]
  have b1: "issued bus1 = issued bus @ reg_read_calls (gt911_dev st) GT911_REG_STATUS" by auto
  have n: "(0x00 :: 8 word) AND 0x0F \<noteq> 1" by simp
  have r: "gt911_read_touch st bus =
      (Some (100, 200, False), st, gt911_clear_status (gt911_dev st) bus1)"
    using read_touch_released [OF i status n] l by simp
  have cd: "calls_during bus (gt911_clear_status (gt911_dev st) bus1) =
            reg_read_calls (gt911_dev st) GT911_REG_STATUS @ [status_clear_call (gt911_dev st)]"
    by (simp add: calls_during_def gt911_clear_status_eq b1)
  have "count_list (reg_read_calls (gt911_dev st) GT911_REG_STATUS) (status_clear_call (gt911_dev st)) = 0"
    using clear_not_reg_read by (simp add: count_list_0_iff)
  then have "count_list (calls_during bus (gt911_clear_status (gt911_dev st) bus1)) (status_clear_call (gt911_dev st)) = 1"
    unfolding cd by simp
  with r cd show ?thesis by blast
qed

theorem C4_witness:
  "gt911_read_touch demo_state press_bus
       = (Some (100, 200, True), pressed_state, snd (snd (gt911_read_touch demo_state press_bus)))
   \<and> fst (gt911_i2c_read_reg (gt911_dev pressed_state) GT911_REG_STATUS 1 release_bus) = Some 0x00
   \<and> (\<exists>bus'. gt911_read_touch pressed_state release_bus = (Some (100, 200, False), pressed_state, bus')
           \<and> count_list (calls_during release_bus bus') (status_clear_call (gt911_dev pressed_state)) = 1)"
proof -
  have p: "gt911_read_touch demo_state press_bus
       = (Some (100, 200, True), pressed_state, snd (snd (gt911_read_touch demo_state press_bus)))"
    by (simp add: pressed_state_def press_run)
  from C4_release_after_press [OF p release_status] p release_status
  show ?thesis by auto
qed

section \<open>The dead-zone mapping\<close>

lemma sint_adc:
  assumes "raw \<le> (4095 :: 32 word)"
  shows "sint raw = uint raw" "0 \<le> uint raw" "uint raw \<le> 4095"
proof -
  from assms show le: "uint raw \<le> 4095" by (simp add: word_le_def)
  show ge: "0 \<le> uint raw" by simp
  have lo: "- (2 ^ 31) \<le> uint raw" by (rule order_trans [OF _ ge]) simp
  have hi: "uint raw < 2 ^ 31" using le by simp
  have "signed_take_bit 31 (uint raw) = uint raw"
    by (rule signed_take_bit_int_eq_self [OF lo hi])
  then show "sint raw = uint raw" by (simp add: sint_uint)
qed

lemma sdiv_pos_divisor:
  fixes a c :: int
  assumes "0 < c"
  shows "a sdiv c = (if 0 \<le> a then a div c else - ((- a) div c))"
  using assms by (cases "a = 0") (simp_all add: signed_divide_int_def sgn_if)

lemma sdiv_mono_left:
  fixes a b c :: int
  assumes "a \<le> b" "0 < c"
  shows "a sdiv c \<le> b sdiv c"
proof -
  consider "0 \<le> a" | "a < 0" "0 \<le> b" | "a < 0" "b < 0" by linarith
  then show ?thesis
  proof cases
    case 1
    with assms have "a div c \<le> b div c" by (simp add: zdiv_mono1)
    with 1 assms show ?thesis by (simp add: sdiv_pos_divisor)
  next
    case 2
    have "0 \<le> (- a) div c" using 2 assms by (simp add: pos_imp_zdiv_nonneg_iff)
    moreover have "0 \<le> b div c" using 2 assms by (simp add: pos_imp_zdiv_nonneg_iff)
    ultimately show ?thesis using 2 assms by (simp add: sdiv_pos_divisor)
  next
    case 3
    with assms have "(- b) div c \<le> (- a) div c" by (simp add: zdiv_mono1)
    with 3 assms show ?thesis by (simp add: sdiv_pos_divisor)
  qed
qed

lemma sdiv_abs_le:
  fixes a c :: int
  assumes "0 < c"
  shows "\<bar>a sdiv c\<bar> \<le> \<bar>a\<bar> div c"
proof (cases "0 \<le> a")
  case True
  then have "0 \<le> a div c" using assms by (simp add: pos_imp_zdiv_nonneg_iff)
  with True assms show ?thesis by (simp add: sdiv_pos_divisor)
next
  case False
  then have "0 \<le> (- a) div c" using assms by (simp add: pos_imp_zdiv_nonneg_iff)
  with False assms show ?thesis by (simp add: sdiv_pos_divisor)
qed

lemma half_bound:
  assumes "\<bar>mp :: int\<bar> \<le> 2262891"
  shows "\<bar>mp sdiv 2\<bar> \<le> 1131445"
proof -
  have "\<bar>mp sdiv 2\<bar> \<le> \<bar>mp\<bar> div 2" by (rule sdiv_abs_le) simp
  also have "\<dots> \<le> 1131445" using assms by linarith
  finally show ?thesis .
qed

lemma half_sign: "0 \<le> (mp :: int) \<Longrightarrow> 0 \<le> mp sdiv 2 \<and> mp sdiv 2 \<le> mp"
  "(mp :: int) < 0 \<Longrightarrow> mp sdiv 2 \<le> 0"
  by (simp_all add: sdiv_pos_divisor)

lemma int32_okI: "\<bar>v\<bar> \<le> 2147483647 \<Longrightarrow> int32_ok v"
  by (simp add: int32_ok_def abs_le_iff)

lemma c_int_ok: "\<bar>v\<bar> \<le> 2147483647 \<Longrightarrow> c_int v = Some v"
  by (simp add: c_int_def int32_okI)

lemma product_bound:
  fixes d h :: int
  assumes "\<bar>d\<bar> \<le> 1898" "\<bar>h\<bar> \<le> 1131445"
  shows "\<bar>d * h\<bar> \<le> 2147482610"
proof -
  have "\<bar>d * h\<bar> = \<bar>d\<bar> * \<bar>h\<bar>" by (simp add: abs_mult)
  also have "\<dots> \<le> 1898 * 1131445" by (rule mult_mono) (use assms in simp_all)
  finally show ?thesis by simp
qed

lemma scaled_bound:
  fixes p :: int
  assumes "\<bar>p\<bar> \<le> 2147482610"
  shows "\<bar>p sdiv 1898\<bar> \<le> 1131445"
proof -
  have "\<bar>p sdiv 1898\<bar> \<le> \<bar>p\<bar> div 1898" by (rule sdiv_abs_le) simp
  also have "\<dots> \<le> 2147482610 div 1898" by (rule zdiv_mono1) (use assms in simp_all)
  finally show ?thesis by simp
qed

lemma map_adc_inside:
  assumes raw: "raw \<le> 4095" and mp: "\<bar>max_pos\<bar> \<le> 2147483647"
    and inside: "\<bar>sint raw - 2048\<bar> < 150"
  shows "map_adc_with_deadzone raw max_pos invert = Some (max_pos sdiv 2)"
proof -
  have o: "\<bar>sint raw - 2048\<bar> \<le> 2147483647" using inside by linarith
  have oo: "\<bar>\<bar>sint raw - 2048\<bar>\<bar> \<le> 2147483647" using inside by linarith
  show ?thesis
    using inside
    by (simp add: map_adc_with_deadzone_def c_int_ok [OF mp] c_int_ok [OF o] c_int_ok [OF oo]
        ADC_CENTER_def ADC_DEADZONE_def)
qed

lemma map_adc_outside:
  assumes raw: "raw \<le> 4095" and mp: "\<bar>max_pos\<bar> \<le> 2262891"
    and outside: "150 \<le> \<bar>sint raw - 2048\<bar>"
  shows "map_adc_with_deadzone raw max_pos invert =
           Some (if invert then max_pos - deadzone_value (sint raw - 2048) max_pos
                 else deadzone_value (sint raw - 2048) max_pos)"
proof -
  define off where "off = sint raw - 2048"
  define h where "h = max_pos sdiv 2"
  define d where "d = (if off > 0 then off - 150 else off + 150)"
  define m0 where "m0 = h + (d * h) sdiv 1898"
  from sint_adc [OF raw] have ob: "- 2048 \<le> off" "off \<le> 2047" by (simp_all add: off_def)
  have oa: "150 \<le> \<bar>off\<bar>" using outside by (simp add: off_def)
  have hb: "\<bar>h\<bar> \<le> 1131445" unfolding h_def by (rule half_bound [OF mp])
  have db: "\<bar>d\<bar> \<le> 1898" using ob oa by (simp add: d_def)
  have pb: "\<bar>d * h\<bar> \<le> 2147482610" by (rule product_bound [OF db hb])
  have sb: "\<bar>(d * h) sdiv 1898\<bar> \<le> 1131445" by (rule scaled_bound [OF pb])
  have mb: "\<bar>m0\<bar> \<le> 2262890" using hb sb by (simp add: m0_def)
  have dv: "deadzone_value off max_pos =
      (if (if m0 < 0 then 0 else m0) > max_pos then max_pos else (if m0 < 0 then 0 else m0))"
    by (simp add: deadzone_value_def Let_def m0_def d_def h_def)
  have vb: "\<bar>max_pos - deadzone_value off max_pos\<bar> \<le> 2147483647"
    using mb mp unfolding dv by (simp split: if_splits) linarith
  have c1: "c_int max_pos = Some max_pos" using mp by (intro c_int_ok) linarith
  have c2: "c_int off = Some off" using ob by (intro c_int_ok) linarith
  have c3: "c_int \<bar>off\<bar> = Some \<bar>off\<bar>" using ob by (intro c_int_ok) linarith
  have c4: "c_int d = Some d" using db by (intro c_int_ok) linarith
  have c5: "c_int (d * h) = Some (d * h)" using pb by (intro c_int_ok) linarith
  have c6: "c_int m0 = Some m0" using mb by (intro c_int_ok) linarith
  have c7: "c_int (max_pos - deadzone_value off max_pos) = Some (max_pos - deadzone_value off max_pos)"
    by (rule c_int_ok [OF vb])
  have na: "\<not> \<bar>off\<bar> < 150" using oa by simp
  show ?thesis
  proof (cases "off > 0")
    case True
    then have dd: "d = off - 150" by (simp add: d_def)
    show ?thesis
      unfolding map_adc_with_deadzone_def ADC_CENTER_def ADC_DEADZONE_def off_def [symmetric]
      using True na c1 c2 c3 c4 [unfolded dd] c5 [unfolded dd] c6 [unfolded m0_def dd] c7 [unfolded dv m0_def dd]
       dv [unfolded m0_def dd]
      by (simp add: Let_def h_def [symmetric])
  next
    case False
    then have dd: "d = off + 150" by (simp add: d_def)
    show ?thesis
      unfolding map_adc_with_deadzone_def ADC_CENTER_def ADC_DEADZONE_def off_def [symmetric]
      using False na c1 c2 c3 c4 [unfolded dd] c5 [unfolded dd] c6 [unfolded m0_def dd] c7 [unfolded dv m0_def dd]
       dv [unfolded m0_def dd]
      by (simp add: Let_def h_def [symmetric])
  qed
qed

lemma deadzone_value_mono:
  assumes le: "off \<le> off'" and o: "150 \<le> \<bar>off\<bar>" and o': "150 \<le> \<bar>off'\<bar>"
  shows "deadzone_value off max_pos \<le> deadzone_value off' max_pos"
proof (cases "0 \<le> max_pos")
  case True
  define h where "h = max_pos sdiv 2"
  define d where "d = (if off > 0 then off - 150 else off + 150)"
  define d' where "d' = (if off' > 0 then off' - 150 else off' + 150)"
  have h0: "0 \<le> h" using half_sign(1) [OF True] by (simp add: h_def)
  have "d \<le> d'" using le o o' by (simp add: d_def d'_def) linarith
  then have "d * h \<le> d' * h" using h0 by (rule mult_right_mono)
  then have "(d * h) sdiv 1898 \<le> (d' * h) sdiv 1898" by (rule sdiv_mono_left) simp
  then show ?thesis
    by (simp add: deadzone_value_def Let_def h_def [symmetric] d_def [symmetric] d'_def [symmetric])
next
  case False
  then show ?thesis by (simp add: deadzone_value_def Let_def)
qed

lemmas adc_eval = map_adc_with_deadzone_def c_int_def int32_ok_def ADC_CENTER_def
  ADC_DEADZONE_def signed_divide_int_def

text \<open>
  Claim C5. For raw ADC values in [0, 4095] and a \<^verbatim>\<open>max_pos\<close> for which the 32-bit
  arithmetic of the function cannot overflow (\<open>\<bar>max_pos\<bar> \<le> 2262891\<close>; the largest product
  formed is 1898 times half of it): for two raw values outside the closed band
  [2048 - 150, 2048 + 150], the smaller raw value maps to the smaller or equal result
  without inversion and to the larger or equal result with inversion; and every raw value
  with \<open>\<bar>raw - 2048\<bar> < 150\<close> maps to exactly \<^verbatim>\<open>max_pos / 2\<close> (C division), inverted or
  not. In all these cases the function returns a value.
\<close>

theorem C5_deadzone_monotone:
  assumes "raw \<le> 4095" and "raw' \<le> 4095" and "\<bar>max_pos\<bar> \<le> 2262891"
  shows "(raw \<le> raw' \<and> (raw < 2048 - 150 \<or> 2048 + 150 < raw)
            \<and> (raw' < 2048 - 150 \<or> 2048 + 150 < raw') \<longrightarrow>
          (\<exists>a b. map_adc_with_deadzone raw max_pos False = Some a
                \<and> map_adc_with_deadzone raw' max_pos False = Some b \<and> a \<le> b)
          \<and> (\<exists>a b. map_adc_with_deadzone raw max_pos True = Some a
                \<and> map_adc_with_deadzone raw' max_pos True = Some b \<and> b \<le> a))
         \<and> (\<bar>int (unat raw) - 2048\<bar> < 150 \<longrightarrow>
              map_adc_with_deadzone raw max_pos invert = Some (max_pos sdiv 2))"
proof (intro conjI impI)
  assume h: "raw \<le> raw' \<and> (raw < 2048 - 150 \<or> 2048 + 150 < raw)
            \<and> (raw' < 2048 - 150 \<or> 2048 + 150 < raw')"
  note s = sint_adc [OF assms(1)] and s' = sint_adc [OF assms(2)]
  from h have le: "sint raw - 2048 \<le> sint raw' - 2048"
    using s(1) s'(1) by (simp add: word_le_def)
  from h have o: "150 \<le> \<bar>sint raw - 2048\<bar>"
    using s(1) by (auto simp add: word_less_def)
  from h have o': "150 \<le> \<bar>sint raw' - 2048\<bar>"
    using s'(1) by (auto simp add: word_less_def)
  note m = deadzone_value_mono [OF le o o', of max_pos]
  show "\<exists>a b. map_adc_with_deadzone raw max_pos False = Some a
                \<and> map_adc_with_deadzone raw' max_pos False = Some b \<and> a \<le> b"
    using m by (simp add: map_adc_outside [OF assms(1) assms(3) o]
        map_adc_outside [OF assms(2) assms(3) o'])
  show "\<exists>a b. map_adc_with_deadzone raw max_pos True = Some a
                \<and> map_adc_with_deadzone raw' max_pos True = Some b \<and> b \<le> a"
    using m by (simp add: map_adc_outside [OF assms(1) assms(3) o]
        map_adc_outside [OF assms(2) assms(3) o'])
next
  assume "\<bar>int (unat raw) - 2048\<bar> < 150"
  then have i: "\<bar>sint raw - 2048\<bar> < 150"
    using sint_adc(1) [OF assms(1)] by simp
  have mp: "\<bar>max_pos\<bar> \<le> 2147483647" using assms(3) by linarith
  show "map_adc_with_deadzone raw max_pos invert = Some (max_pos sdiv 2)"
    by (rule map_adc_inside [OF assms(1) mp i])
qed

theorem C5_witness:
  "(1000 :: 32 word) \<le> 4095 \<and> (2300 :: 32 word) \<le> 4095 \<and> \<bar>88 :: int\<bar> \<le> 2262891
   \<and> (1000 :: 32 word) \<le> 2300 \<and> (1000 :: 32 word) < 2048 - 150
   \<and> (2048 + 150 :: 32 word) < 2300
   \<and> map_adc_with_deadzone 1000 88 False = Some 24
   \<and> map_adc_with_deadzone 2300 88 False = Some 46
   \<and> map_adc_with_deadzone 1000 88 True = Some 64
   \<and> map_adc_with_deadzone 2300 88 True = Some 42
   \<and> \<bar>int (unat (2100 :: 32 word)) - 2048\<bar> < 150
   \<and> map_adc_with_deadzone 2100 88 True = Some 44"
proof -
  have a: "(1000 :: 32 word) \<le> 4095" "(2300 :: 32 word) \<le> 4095" "(2100 :: 32 word) \<le> 4095"
    "\<bar>88 :: int\<bar> \<le> 2262891" by simp_all
  from C5_deadzone_monotone [OF a(1) a(2) a(4), of True]
       C5_deadzone_monotone [OF a(3) a(3) a(4), of True]
  show ?thesis by (simp add: adc_eval)
qed

text \<open>
  Claim C6 as stated has \<^verbatim>\<open>map_adc_with_deadzone(2048 - 151, 88, false)\<close> equal to 0. One
  step past the edge of the dead zone the rescaled part is \<open>(-1 * 44) / 1898 = 0\<close>, so the
  result is still the centre 44.
\<close>

theorem C6_counterexample:
  "map_adc_with_deadzone (2048 - 151) 88 False \<noteq> Some 0"
  by (simp add: adc_eval)

text \<open>
  Claim C6, amended. \<^verbatim>\<open>map_adc_with_deadzone(2048, 88, false)\<close> is 44;
  \<^verbatim>\<open>map_adc_with_deadzone(2048 - 151, 88, false)\<close> is 44; and
  \<^verbatim>\<open>map_adc_with_deadzone(2048 + 151, 88, true)\<close> is 88 minus
  \<^verbatim>\<open>map_adc_with_deadzone(2048 + 151, 88, false)\<close>, which is 44.
\<close>

theorem C6_scenario_values:
  "map_adc_with_deadzone 2048 88 False = Some 44
   \<and> map_adc_with_deadzone (2048 - 151) 88 False = Some 44
   \<and> map_adc_with_deadzone (2048 + 151) 88 False = Some 44
   \<and> map_adc_with_deadzone (2048 + 151) 88 True = Some (88 - 44)"
  by (simp add: adc_eval)

section \<open>Button debounce\<close>

lemmas button_consts = GPIO_BUTTON_1_def GPIO_BUTTON_2_def GPIO_LED_1_def GPIO_LED_2_def
  BTN_DEBOUNCE_MS_def GPIO_IRQ_EDGE_RISE_def GPIO_IRQ_EDGE_FALL_def

lemma first_press_state_eq:
  "first_press_state = \<lparr>btn1_last_time = 100, btn2_last_time = 0, led1 = True, led2 = False,
      gpio_level = (\<lambda>_. False)(GPIO_LED_1 := True)\<rparr>"
  by (simp add: first_press_state_def on_button_interrupt_def button_static_init_def
      gpio_put_def gpio_get_def button_consts Let_def)

lemma debounce_gt: "(a :: 32 word) > BTN_DEBOUNCE_MS \<longleftrightarrow> 50 < unat a"
  by (simp add: BTN_DEBOUNCE_MS_def word_less_nat_alt)

lemma button1_rise:
  assumes "events AND GPIO_IRQ_EDGE_RISE \<noteq> 0"
  shows "on_button_interrupt GPIO_BUTTON_1 events now st =
          (if 50 < unat (now - btn1_last_time st)
           then st\<lparr>btn1_last_time := now, led1 := \<not> led1 st,
                   gpio_level := (gpio_level st)(GPIO_LED_1 := \<not> gpio_level st GPIO_LED_1)\<rparr>
           else st)"
  using assms
  by (simp add: on_button_interrupt_def debounce_gt gpio_put_def gpio_get_def Let_def)

lemma button2_rise:
  assumes "events AND GPIO_IRQ_EDGE_RISE \<noteq> 0"
  shows "on_button_interrupt GPIO_BUTTON_2 events now st =
          (if 50 < unat (now - btn2_last_time st)
           then st\<lparr>btn2_last_time := now, led2 := \<not> led2 st,
                   gpio_level := (gpio_level st)(GPIO_LED_2 := \<not> gpio_level st GPIO_LED_2)\<rparr>
           else st)"
  using assms
  by (simp add: on_button_interrupt_def debounce_gt gpio_put_def gpio_get_def Let_def
      GPIO_BUTTON_1_def GPIO_BUTTON_2_def)

lemma leds_distinct: "GPIO_LED_1 \<noteq> GPIO_LED_2"
  by (simp add: GPIO_LED_1_def GPIO_LED_2_def)

text \<open>
  Claim C7 as stated lets a rising edge toggle when at least 50 ms have elapsed. The
  handler accepts an edge only when the elapsed time is greater than 50: a rising edge
  exactly 50 ms after the last accepted one changes nothing.
\<close>

theorem C7_counterexample:
  "led1 first_press_state \<and> btn1_last_time first_press_state = 100
   \<and> unat ((150 :: 32 word) - btn1_last_time first_press_state) = 50
   \<and> on_button_interrupt GPIO_BUTTON_1 GPIO_IRQ_EDGE_RISE 150 first_press_state
       = first_press_state"
  by (simp add: first_press_state_eq on_button_interrupt_def button_consts)

text \<open>
  Claim C7, amended. An event without the rising-edge bit changes nothing, on any pin. A
  rising edge on button 1 toggles indicator 1 and LED pin 16 if and only if more than
  50 ms (the 32-bit difference of the millisecond counter) have passed since the stored
  time of button 1's last accepted rising edge, which is 0 after boot; it then stores the
  new time, and in no case touches indicator 2, LED pin 17 or the time stored for
  button 2. The same holds for button 2 with the roles exchanged. Hence of two rising
  edges on one button, the first of them accepted, the second toggles again exactly when
  it comes more than 50 ms after the first: one toggle in total when they are at most
  50 ms apart, two when they are further apart.
\<close>

theorem C7_debounce_strict:
  "(events AND GPIO_IRQ_EDGE_RISE = 0 \<longrightarrow> on_button_interrupt pin events now st = st)
   \<and> (events AND GPIO_IRQ_EDGE_RISE \<noteq> 0 \<longrightarrow>
        (let st' = on_button_interrupt GPIO_BUTTON_1 events now st;
             accepted = (50 < unat (now - btn1_last_time st))
         in (led1 st' \<noteq> led1 st \<longleftrightarrow> accepted)
            \<and> (gpio_level st' GPIO_LED_1 \<noteq> gpio_level st GPIO_LED_1 \<longleftrightarrow> accepted)
            \<and> btn1_last_time st' = (if accepted then now else btn1_last_time st)
            \<and> led2 st' = led2 st \<and> gpio_level st' GPIO_LED_2 = gpio_level st GPIO_LED_2
            \<and> btn2_last_time st' = btn2_last_time st)
        \<and> (let st' = on_button_interrupt GPIO_BUTTON_2 events now st;
                accepted = (50 < unat (now - btn2_last_time st))
            in (led2 st' \<noteq> led2 st \<longleftrightarrow> accepted)
               \<and> (gpio_level st' GPIO_LED_2 \<noteq> gpio_level st GPIO_LED_2 \<longleftrightarrow> accepted)
               \<and> btn2_last_time st' = (if accepted then now else btn2_last_time st)
               \<and> led1 st' = led1 st \<and> gpio_level st' GPIO_LED_1 = gpio_level st GPIO_LED_1
               \<and> btn1_last_time st' = btn1_last_time st))
   \<and> (events AND GPIO_IRQ_EDGE_RISE \<noteq> 0 \<and> events' AND GPIO_IRQ_EDGE_RISE \<noteq> 0
        \<and> 50 < unat (now - btn1_last_time st) \<longrightarrow>
        led1 (on_button_interrupt GPIO_BUTTON_1 events' now'
               (on_button_interrupt GPIO_BUTTON_1 events now st))
          = (if 50 < unat (now' - now) then led1 st else \<not> led1 st))
   \<and> (events AND GPIO_IRQ_EDGE_RISE \<noteq> 0 \<and> events' AND GPIO_IRQ_EDGE_RISE \<noteq> 0
        \<and> 50 < unat (now - btn2_last_time st) \<longrightarrow>
        led2 (on_button_interrupt GPIO_BUTTON_2 events' now'
               (on_button_interrupt GPIO_BUTTON_2 events now st))
          = (if 50 < unat (now' - now) then led2 st else \<not> led2 st))"
proof (intro conjI impI)
  assume "events AND GPIO_IRQ_EDGE_RISE = 0"
  then show "on_button_interrupt pin events now st = st"
    by (simp add: on_button_interrupt_def)
next
  assume r: "events AND GPIO_IRQ_EDGE_RISE \<noteq> 0"
  show "let st' = on_button_interrupt GPIO_BUTTON_1 events now st;
             accepted = (50 < unat (now - btn1_last_time st))
         in (led1 st' \<noteq> led1 st \<longleftrightarrow> accepted)
            \<and> (gpio_level st' GPIO_LED_1 \<noteq> gpio_level st GPIO_LED_1 \<longleftrightarrow> accepted)
            \<and> btn1_last_time st' = (if accepted then now else btn1_last_time st)
            \<and> led2 st' = led2 st \<and> gpio_level st' GPIO_LED_2 = gpio_level st GPIO_LED_2
            \<and> btn2_last_time st' = btn2_last_time st"
    using leds_distinct by (auto simp add: button1_rise [OF r] Let_def)
  show "let st' = on_button_interrupt GPIO_BUTTON_2 events now st;
                accepted = (50 < unat (now - btn2_last_time st))
            in (led2 st' \<noteq> led2 st \<longleftrightarrow> accepted)
               \<and> (gpio_level st' GPIO_LED_2 \<noteq> gpio_level st GPIO_LED_2 \<longleftrightarrow> accepted)
               \<and> btn2_last_time st' = (if accepted then now else btn2_last_time st)
               \<and> led1 st' = led1 st \<and> gpio_level st' GPIO_LED_1 = gpio_level st GPIO_LED_1
               \<and> btn1_last_time st' = btn1_last_time st"
    using leds_distinct by (auto simp add: button2_rise [OF r] Let_def)
next
  assume "events AND GPIO_IRQ_EDGE_RISE \<noteq> 0 \<and> events' AND GPIO_IRQ_EDGE_RISE \<noteq> 0
        \<and> 50 < unat (now - btn1_last_time st)"
  then show "led1 (on_button_interrupt GPIO_BUTTON_1 events' now'
               (on_button_interrupt GPIO_BUTTON_1 events now st))
          = (if 50 < unat (now' - now) then led1 st else \<not> led1 st)"
    by (simp add: button1_rise)
next
  assume "events AND GPIO_IRQ_EDGE_RISE \<noteq> 0 \<and> events' AND GPIO_IRQ_EDGE_RISE \<noteq> 0
        \<and> 50 < unat (now - btn2_last_time st)"
  then show "led2 (on_button_interrupt GPIO_BUTTON_2 events' now'
               (on_button_interrupt GPIO_BUTTON_2 events now st))
          = (if 50 < unat (now' - now) then led2 st else \<not> led2 st)"
    by (simp add: button2_rise)
qed

theorem C7_witness:
  "GPIO_IRQ_EDGE_FALL AND GPIO_IRQ_EDGE_RISE = 0
   \<and> on_button_interrupt GPIO_BUTTON_1 GPIO_IRQ_EDGE_FALL 100 button_static_init
       = button_static_init
   \<and> GPIO_IRQ_EDGE_RISE AND GPIO_IRQ_EDGE_RISE \<noteq> 0
   \<and> 50 < unat ((100 :: 32 word) - btn1_last_time button_static_init)
   \<and> led1 (on_button_interrupt GPIO_BUTTON_1 GPIO_IRQ_EDGE_RISE 100 button_static_init)
   \<and> led1 (on_button_interrupt GPIO_BUTTON_1 GPIO_IRQ_EDGE_RISE 150
             (on_button_interrupt GPIO_BUTTON_1 GPIO_IRQ_EDGE_RISE 100 button_static_init))
   \<and> \<not> led1 (on_button_interrupt GPIO_BUTTON_1 GPIO_IRQ_EDGE_RISE 151
             (on_button_interrupt GPIO_BUTTON_1 GPIO_IRQ_EDGE_RISE 100 button_static_init))
   \<and> led2 (on_button_interrupt GPIO_BUTTON_2 GPIO_IRQ_EDGE_RISE 100 button_static_init)"
proof -
  have f: "GPIO_IRQ_EDGE_FALL AND GPIO_IRQ_EDGE_RISE = 0"
    and r: "GPIO_IRQ_EDGE_RISE AND GPIO_IRQ_EDGE_RISE \<noteq> 0"
    and t: "50 < unat ((100 :: 32 word) - btn1_last_time button_static_init)"
    and t2: "50 < unat ((100 :: 32 word) - btn2_last_time button_static_init)"
    and l: "\<not> led1 button_static_init" "\<not> led2 button_static_init"
    by (simp_all add: button_consts button_static_init_def)
  note a = C7_debounce_strict [of GPIO_IRQ_EDGE_FALL GPIO_BUTTON_1 100 button_static_init]
  note b = C7_debounce_strict [of GPIO_IRQ_EDGE_RISE GPIO_BUTTON_1 100 button_static_init
      GPIO_IRQ_EDGE_RISE 150]
  note c = C7_debounce_strict [of GPIO_IRQ_EDGE_RISE GPIO_BUTTON_1 100 button_static_init
      GPIO_IRQ_EDGE_RISE 151]
  from a f have 1: "on_button_interrupt GPIO_BUTTON_1 GPIO_IRQ_EDGE_FALL 100 button_static_init
       = button_static_init" by blast
  from b r t l have 2: "led1 (on_button_interrupt GPIO_BUTTON_1 GPIO_IRQ_EDGE_RISE 100 button_static_init)"
    by (simp add: Let_def)
  from b r t l have 3: "led1 (on_button_interrupt GPIO_BUTTON_1 GPIO_IRQ_EDGE_RISE 150
             (on_button_interrupt GPIO_BUTTON_1 GPIO_IRQ_EDGE_RISE 100 button_static_init))"
    by (simp add: Let_def)
  from c r t l have 4: "\<not> led1 (on_button_interrupt GPIO_BUTTON_1 GPIO_IRQ_EDGE_RISE 151
             (on_button_interrupt GPIO_BUTTON_1 GPIO_IRQ_EDGE_RISE 100 button_static_init))"
    by (simp add: Let_def)
  from b r t2 l have 5: "led2 (on_button_interrupt GPIO_BUTTON_2 GPIO_IRQ_EDGE_RISE 100 button_static_init)"
    by (simp add: Let_def)
  from f r t 1 2 3 4 5 show ?thesis by blast
qed

section \<open>Display flush and pixel write\<close>

lemmas lcd_ops = LCD_CS_LOW_def LCD_CS_HIGH_def LCD_DC_CMD_def LCD_DC_DATA_def sleep_us_def
  spi_write_blocking_def

lemma st7796_write_cmd_trace:
  "st7796_write_cmd cmd tr =
     tr @ [Gpio_Put ST7796_PIN_CS False, Gpio_Put ST7796_PIN_DC False, Sleep_Us 1,
           Spi_Write [cmd], Sleep_Us 1, Gpio_Put ST7796_PIN_CS True]"
  by (simp add: st7796_write_cmd_def lcd_ops)

lemma st7796_write_data_trace:
  "st7796_write_data data len tr =
     tr @ (case data of None \<Rightarrow> []
           | Some bytes \<Rightarrow> if len = 0 then []
               else [Gpio_Put ST7796_PIN_CS False, Gpio_Put ST7796_PIN_DC True, Sleep_Us 1,
                     Spi_Write (take (unat len) bytes), Sleep_Us 1, Gpio_Put ST7796_PIN_CS True])"
  by (simp add: st7796_write_data_def lcd_ops split: option.splits)

lemma st7796_write_color_trace:
  "st7796_write_color color len tr =
     tr @ (case color of None \<Rightarrow> []
           | Some bytes \<Rightarrow> if len = 0 then []
               else [Gpio_Put ST7796_PIN_CS False, Gpio_Put ST7796_PIN_DC True,
                     Spi_Write (take (unat (len * 2)) bytes), Gpio_Put ST7796_PIN_CS True])"
  by (simp add: st7796_write_color_def lcd_ops split: option.splits)

lemma st7796_set_window_trace:
  "\<exists>evs. st7796_set_window wx1 wy1 wx2 wy2 tr = tr @ evs \<and> Flush_Ready \<notin> set evs"
  by (simp add: st7796_set_window_def Let_def st7796_write_cmd_trace st7796_write_data_trace)

lemma st7796_write_color_no_ready:
  "\<exists>evs. st7796_write_color color len tr = tr @ evs \<and> Flush_Ready \<notin> set evs"
  by (simp add: st7796_write_color_trace split: option.splits)

text \<open>
  Claim C8. Every call of \<^verbatim>\<open>disp_flush\<close> appends events to the trace that end with the
  completion signal and contain it nowhere else, so the signal is sent exactly once
  whatever the flag, the area and the buffer are. With the flag false the completion
  signal is the only event of the call: no pin is written and nothing goes over SPI.
\<close>

theorem C8_flush_ready_once:
  "(\<exists>evs. disp_flush enabled area color_p tr = tr @ evs @ [Flush_Ready]
           \<and> Flush_Ready \<notin> set evs)
   \<and> count_list (drop (length tr) (disp_flush enabled area color_p tr)) Flush_Ready = 1
   \<and> disp_flush False area color_p tr = tr @ [Flush_Ready]"
proof -
  have off: "disp_flush False area color_p tr = tr @ [Flush_Ready]"
    by (simp add: disp_flush_def lv_disp_flush_ready_def)
  have ex: "\<exists>evs. disp_flush enabled area color_p tr = tr @ evs @ [Flush_Ready]
           \<and> Flush_Ready \<notin> set evs"
  proof (cases enabled)
    case False
    with off show ?thesis by simp
  next
    case True
    obtain e1 where e1: "st7796_set_window (x1 area) (y1 area) (x2 area) (y2 area) tr = tr @ e1"
      "Flush_Ready \<notin> set e1" using st7796_set_window_trace by blast
    obtain e2 where e2: "st7796_write_color color_p
        (word_of_int (sint (lv_area_get_width area) * sint (lv_area_get_height area))) (tr @ e1)
          = (tr @ e1) @ e2" "Flush_Ready \<notin> set e2"
      using st7796_write_color_no_ready by blast
    have "disp_flush enabled area color_p tr = tr @ (e1 @ e2) @ [Flush_Ready]"
      using True e1(1) e2(1) by (simp add: disp_flush_def Let_def lv_disp_flush_ready_def)
    moreover have "Flush_Ready \<notin> set (e1 @ e2)" using e1(2) e2(2) by simp
    ultimately show ?thesis by blast
  qed
  then obtain evs where evs: "disp_flush enabled area color_p tr = tr @ evs @ [Flush_Ready]"
    "Flush_Ready \<notin> set evs" by blast
  have "count_list evs Flush_Ready = 0" using evs(2) by (simp add: count_list_0_iff)
  then have "count_list (drop (length tr) (disp_flush enabled area color_p tr)) Flush_Ready = 1"
    by (simp add: evs(1))
  with ex off show ?thesis by blast
qed

text \<open>
  Claim C9. \<^verbatim>\<open>st7796_write_color\<close> leaves the trace as it is (no pin write, no SPI
  burst) when the pixel count is 0 or the pointer is null. Otherwise, for a buffer that
  holds at least \<^verbatim>\<open>len\<close> pixels (two bytes each; an object of fewer than \<open>2^32\<close> bytes, as
  every object on the 32-bit target is), the call does exactly this: chip-select low,
  data-select to data, one SPI burst of the first \<open>2 * len\<close> bytes of the buffer,
  chip-select high.
\<close>

theorem C9_write_color_burst:
  "st7796_write_color color 0 tr = tr
   \<and> st7796_write_color None len tr = tr
   \<and> (len \<noteq> 0 \<and> 2 * unat len \<le> length bytes \<and> length bytes < 2 ^ 32 \<longrightarrow>
        st7796_write_color (Some bytes) len tr =
          tr @ [Gpio_Put ST7796_PIN_CS False, Gpio_Put ST7796_PIN_DC True,
                Spi_Write (take (2 * unat len) bytes), Gpio_Put ST7796_PIN_CS True]
        \<and> length (take (2 * unat len) bytes) = 2 * unat len)"
proof (intro conjI impI)
  show "st7796_write_color color 0 tr = tr"
    by (simp add: st7796_write_color_trace split: option.splits)
  show "st7796_write_color None len tr = tr"
    by (simp add: st7796_write_color_trace)
next
  assume h: "len \<noteq> 0 \<and> 2 * unat len \<le> length bytes \<and> length bytes < 2 ^ 32"
  then have "unat len * 2 < 2 ^ 32" by simp
  then have "unat (len * 2) = 2 * unat len"
    by (simp add: unat_word_ariths)
  with h show "st7796_write_color (Some bytes) len tr =
          tr @ [Gpio_Put ST7796_PIN_CS False, Gpio_Put ST7796_PIN_DC True,
                Spi_Write (take (2 * unat len) bytes), Gpio_Put ST7796_PIN_CS True]"
    by (simp add: st7796_write_color_trace)
  from h show "length (take (2 * unat len) bytes) = 2 * unat len" by simp
qed

theorem C9_witness:
  "(2 :: 32 word) \<noteq> 0 \<and> 2 * unat (2 :: 32 word) \<le> length demo_pixels
   \<and> length demo_pixels < 2 ^ 32
   \<and> st7796_write_color (Some demo_pixels) 2 [] =
        [Gpio_Put ST7796_PIN_CS False, Gpio_Put ST7796_PIN_DC True,
         Spi_Write [0x12, 0x34, 0x56, 0x78], Gpio_Put ST7796_PIN_CS True]"
proof -
  have h: "(2 :: 32 word) \<noteq> 0 \<and> 2 * unat (2 :: 32 word) \<le> length demo_pixels
   \<and> length demo_pixels < 2 ^ 32" by (simp add: demo_pixels_def)
  from C9_write_color_burst [of _ "[]" 2 demo_pixels] h
  have "st7796_write_color (Some demo_pixels) 2 [] =
          [] @ [Gpio_Put ST7796_PIN_CS False, Gpio_Put ST7796_PIN_DC True,
                Spi_Write (take (2 * unat (2 :: 32 word)) demo_pixels), Gpio_Put ST7796_PIN_CS True]"
    by blast
  with h show ?thesis by (simp add: demo_pixels_def)
qed

end
